theory Spec2Isabelle
  imports Complex_Main
begin

section \<open>Python values and library operations the script relies on\<close>

text \<open>
  The script \<^verbatim>\<open>scripts/create_test_egf_with_comparisons.py\<close> is modelled as a pure
  function. Python integers are \<open>int\<close>, loop counters that start at 0 are \<open>nat\<close>,
  strings are \<open>string\<close>. Python floats are modelled by the real numbers their decimal
  literals denote (\<open>0.7\<close> is \<open>7/10\<close>), so sums are exact. An exception is a value
  \<open>Inl e\<close> of the result type \<open>py_error + 'a\<close>.
\<close>

datatype py_error = IndexError | TypeError

definition bind_err :: "py_error + 'a \<Rightarrow> ('a \<Rightarrow> py_error + 'b) \<Rightarrow> py_error + 'b" where
  "bind_err m f = (case m of Inl e \<Rightarrow> Inl e | Inr v \<Rightarrow> f v)"

text \<open>
  Python's index rule for a sequence of length \<open>len\<close>: an index in \<open>0..len-1\<close> is
  taken as it is, an index in \<open>-len..-1\<close> counts from the end, any other raises.
\<close>

definition norm_index :: "nat \<Rightarrow> int \<Rightarrow> nat option" where
  "norm_index len i =
     (if 0 \<le> i \<and> i < int len then Some (nat i)
      else if - int len \<le> i \<and> i < 0 then Some (nat (i + int len))
      else None)"

text \<open>\<^verbatim>\<open>xs[i]\<close> and \<^verbatim>\<open>xs[i] = v\<close>.\<close>

definition py_getitem :: "'a list \<Rightarrow> int \<Rightarrow> py_error + 'a" where
  "py_getitem xs i =
     (case norm_index (length xs) i of None \<Rightarrow> Inl IndexError | Some k \<Rightarrow> Inr (xs ! k))"

definition py_setitem :: "'a list \<Rightarrow> int \<Rightarrow> 'a \<Rightarrow> py_error + 'a list" where
  "py_setitem xs i v =
     (case norm_index (length xs) i of None \<Rightarrow> Inl IndexError | Some k \<Rightarrow> Inr (xs[k := v]))"

text \<open>A \<^verbatim>\<open>for\<close> loop over a list of values; an exception in the body ends the loop.\<close>

fun for_each :: "('a \<Rightarrow> 'st \<Rightarrow> py_error + 'st) \<Rightarrow> 'a list \<Rightarrow> 'st \<Rightarrow> py_error + 'st" where
  "for_each body [] st = Inr st"
| "for_each body (x # xs) st = bind_err (body x st) (for_each body xs)"

text \<open>\<^verbatim>\<open>str(n)\<close> for a non-negative integer: its decimal digits.\<close>

fun str_nat :: "nat \<Rightarrow> string" where
  "str_nat n =
     (if n < 10 then [''0123456789'' ! n]
      else str_nat (n div 10) @ [''0123456789'' ! (n mod 10)])"

declare str_nat.simps [simp del]

text \<open>\<^verbatim>\<open>f"{k}"\<close> for an integer.\<close>

definition str_int :: "int \<Rightarrow> string" where
  "str_int k = (if k < 0 then CHR ''-'' # str_nat (nat (- k)) else str_nat (nat k))"

text \<open>\<^verbatim>\<open>f"{i:03d}"\<close> for a counter \<open>i \<ge> 0\<close>: zero-padded to at least three digits.\<close>

definition fmt_03d :: "nat \<Rightarrow> string" where
  "fmt_03d i = replicate (3 - length (str_nat i)) CHR ''0'' @ str_nat i"

text \<open>Reading a decimal numeral back: the inverse of the two formats above.\<close>

definition digit_value :: "char \<Rightarrow> nat" where
  "digit_value ch = (of_char ch :: nat) - 48"

definition nat_of_digits :: "string \<Rightarrow> nat" where
  "nat_of_digits ds = foldl (\<lambda>acc ch. 10 * acc + digit_value ch) 0 ds"

text \<open>\<^verbatim>\<open>s.upper()\<close> on ASCII text.\<close>

definition upper_char :: "char \<Rightarrow> char" where
  "upper_char c =
     (case map_of (zip ''abcdefghijklmnopqrstuvwxyz'' ''ABCDEFGHIJKLMNOPQRSTUVWXYZ'') c of
        Some u \<Rightarrow> u
      | None \<Rightarrow> c)"

definition upper :: "string \<Rightarrow> string" where
  "upper s = map upper_char s"

text \<open>
  The module \<^verbatim>\<open>random\<close> is Python's library, not part of the repository. It is a
  parameter of the model: a generator state of type \<open>'s\<close> and the five operations the
  script calls, each returning the value drawn and the next state.
\<close>

record 's random_module =
  random_seed :: "int \<Rightarrow> 's"
  random_randint :: "int \<Rightarrow> int \<Rightarrow> 's \<Rightarrow> int \<times> 's"
  random_choice :: "string list \<Rightarrow> 's \<Rightarrow> string \<times> 's"
  random_random :: "'s \<Rightarrow> real \<times> 's"
  random_uniform :: "real \<Rightarrow> real \<Rightarrow> 's \<Rightarrow> real \<times> 's"

text \<open>
  The library's documented ranges, each a hypothesis where a theorem needs it:
  \<^verbatim>\<open>randint(a, b)\<close> lies in \<open>a..b\<close>, \<^verbatim>\<open>choice(xs)\<close> is an element of \<open>xs\<close>,
  \<^verbatim>\<open>random()\<close> lies in \<open>[0, 1)\<close>. How the values are distributed is not modelled.
\<close>

definition randint_in_range :: "'s random_module \<Rightarrow> bool" where
  "randint_in_range R =
     (\<forall>a b s. a \<le> b \<longrightarrow> a \<le> fst (random_randint R a b s) \<and> fst (random_randint R a b s) \<le> b)"

definition choice_in_list :: "'s random_module \<Rightarrow> bool" where
  "choice_in_list R = (\<forall>xs s. xs \<noteq> [] \<longrightarrow> fst (random_choice R xs s) \<in> set xs)"

definition random_in_unit :: "'s random_module \<Rightarrow> bool" where
  "random_in_unit R = (\<forall>s. 0 \<le> fst (random_random R s) \<and> fst (random_random R s) < 1)"

section \<open>The data model\<close>

record submission =
  sub_id :: string
  sub_grade :: int

record message =
  role :: string
  content :: string

record llm_call =
  call_id :: string
  timestamp :: int
  model :: string
  temperature :: real
  max_tokens :: int
  messages :: "message list"
  output_content :: string
  stop_reason :: string
  input_tokens :: int
  output_tokens :: int
  latency_ms :: int

record grade_result =
  gr_submission_id :: string
  gr_grade :: int
  gr_grade_distribution :: "real list"
  gr_call_ids :: "string list"
  gr_graded_at :: int

record comparison =
  comparison_id :: string
  submission_a :: string
  submission_b :: string
  winner :: string
  cmp_call_ids :: "string list"
  compared_at :: int
  confidence :: real
  justification :: string

text \<open>
  Modelled from the spec: the class \<^verbatim>\<open>EGF\<close> (module \<^verbatim>\<open>egf\<close>) is not among the
  sources. Following section 6 of the specification, the artifact is a back-reference to
  the submission set, a description, and the ordered collections of call records, grade
  results and comparisons; each \<^verbatim>\<open>add_*\<close> method appends the record it is given.
\<close>

record egf =
  edf_ref :: string
  egf_description :: string
  llm_calls :: "llm_call list"
  grade_results :: "grade_result list"
  comparisons :: "comparison list"

definition reference_edf :: "string \<Rightarrow> string \<Rightarrow> egf" where
  "reference_edf edf_path description =
     \<lparr>edf_ref = edf_path, egf_description = description,
      llm_calls = [], grade_results = [], comparisons = []\<rparr>"

definition add_llm_call :: "llm_call \<Rightarrow> egf \<Rightarrow> egf" where
  "add_llm_call c e = e\<lparr>llm_calls := llm_calls e @ [c]\<rparr>"

definition add_grade_result :: "grade_result \<Rightarrow> egf \<Rightarrow> egf" where
  "add_grade_result g e = e\<lparr>grade_results := grade_results e @ [g]\<rparr>"

definition add_comparison :: "comparison \<Rightarrow> egf \<Rightarrow> egf" where
  "add_comparison c e = e\<lparr>comparisons := comparisons e @ [c]\<rparr>"

section \<open>The grading pass (source lines 33 to 75)\<close>

text \<open>Lines 58 to 67: the distribution built around the predicted grade.\<close>

definition build_dist :: "int \<Rightarrow> py_error + real list" where
  "build_dist predicted_grade =
     bind_err (py_setitem (replicate 11 0) predicted_grade 0.7) (\<lambda>dist.
     bind_err
       (if predicted_grade > 0 then py_setitem dist (predicted_grade - 1) 0.15
        else bind_err (py_getitem dist predicted_grade) (\<lambda>v.
             py_setitem dist predicted_grade (v + 0.15))) (\<lambda>dist.
     if predicted_grade < 10 then py_setitem dist (predicted_grade + 1) 0.15
     else bind_err (py_getitem dist predicted_grade) (\<lambda>v.
          py_setitem dist predicted_grade (v + 0.15))))"

text \<open>Lines 37 to 51: the call record of one grading call.\<close>

definition grade_call :: "int \<Rightarrow> nat \<Rightarrow> submission \<Rightarrow> llm_call" where
  "grade_call ts i sub =
     \<lparr>call_id = ''grade_call_'' @ fmt_03d i,
      timestamp = ts + int i * 1000,
      model = ''claude-sonnet-4-20250514'',
      temperature = 0.0,
      max_tokens = 4096,
      messages = [\<lparr>role = ''user'',
                    content = ''Grade this submission: '' @ sub_id sub @ ''...''\<rparr>],
      output_content = ''Grade: '' @ str_int (sub_grade sub)
        @ ''\<newline>\<newline>Justification: The submission demonstrates...'',
      stop_reason = ''end_turn'',
      input_tokens = 2000,
      output_tokens = 500,
      latency_ms = 2500\<rparr>"

text \<open>Line 55: the ground-truth grade plus the noise, clamped to \<open>0..10\<close>.\<close>

definition predicted_grade_of :: "int \<Rightarrow> int \<Rightarrow> int" where
  "predicted_grade_of grade noise = max 0 (min 10 (grade + noise))"

text \<open>
  Lines 34 to 75: the body of the grading loop for submission \<open>sub\<close> at index \<open>i\<close>. The
  state is the artifact under construction and the generator state.
\<close>

definition grade_body ::
  "'s random_module \<Rightarrow> int \<Rightarrow> nat \<times> submission \<Rightarrow> egf \<times> 's \<Rightarrow> py_error + egf \<times> 's" where
  "grade_body R ts isub st =
     (case isub of (i, sub) \<Rightarrow> case st of (e, s) \<Rightarrow>
        let call = grade_call ts i sub;
            e = add_llm_call call e;
            (noise, s) = random_randint R (- 1) 1 s;
            predicted_grade = predicted_grade_of (sub_grade sub) noise
        in bind_err (build_dist predicted_grade) (\<lambda>dist.
           Inr (add_grade_result
                  \<lparr>gr_submission_id = sub_id sub,
                   gr_grade = predicted_grade,
                   gr_grade_distribution = dist,
                   gr_call_ids = [call_id call],
                   gr_graded_at = ts + int i * 1000 + 500\<rparr> e, s)))"

section \<open>The comparison pass (source lines 78 to 134)\<close>

text \<open>Lines 88 to 94: the winner by ground truth; a tie is broken by \<^verbatim>\<open>random.choice\<close>.\<close>

definition correct_winner_of :: "'s random_module \<Rightarrow> int \<Rightarrow> int \<Rightarrow> 's \<Rightarrow> string \<times> 's" where
  "correct_winner_of R grade_a grade_b s =
     (let gt_diff = grade_a - grade_b
      in if gt_diff > 0 then (''a'', s)
         else if gt_diff < 0 then (''b'', s)
         else random_choice R [''a'', ''b''] s)"

text \<open>Lines 97 to 100: the winner reported, right with the given accuracy.\<close>

definition winner_of :: "'s random_module \<Rightarrow> real \<Rightarrow> string \<Rightarrow> 's \<Rightarrow> string \<times> 's" where
  "winner_of R accuracy correct_winner s =
     (let (r, s) = random_random R s
      in (if r < accuracy then correct_winner
          else (if correct_winner = ''a'' then ''b'' else ''a''), s))"

text \<open>Lines 103 to 120: the call record of one comparison call.\<close>

definition comparison_call :: "int \<Rightarrow> nat \<Rightarrow> submission \<Rightarrow> submission \<Rightarrow> string \<Rightarrow> llm_call" where
  "comparison_call ts comparison_count sub_a sub_b w =
     \<lparr>call_id = ''comp_call_'' @ fmt_03d comparison_count,
      timestamp = ts + 100000 + int comparison_count * 1000,
      model = ''claude-sonnet-4-20250514'',
      temperature = 0.0,
      max_tokens = 4096,
      messages = [\<lparr>role = ''user'',
                    content = ''Compare submissions '' @ sub_id sub_a @ '' and ''
                      @ sub_id sub_b @ ''...''\<rparr>],
      output_content = ''Winner: '' @ upper w @ ''\<newline>\<newline>Submission '' @ upper w
        @ '' demonstrates stronger understanding...'',
      stop_reason = ''end_turn'',
      input_tokens = 4000,
      output_tokens = 800,
      latency_ms = 4000\<rparr>"

text \<open>
  Lines 81 to 134: the body of the inner loop for the pair of indices \<open>(i, j)\<close>. The state
  is the artifact, the generator state and \<^verbatim>\<open>comparison_count\<close>.
\<close>

definition comparison_body ::
  "'s random_module \<Rightarrow> int \<Rightarrow> real \<Rightarrow> submission list \<Rightarrow> nat \<Rightarrow> nat
     \<Rightarrow> egf \<times> 's \<times> nat \<Rightarrow> py_error + egf \<times> 's \<times> nat" where
  "comparison_body R ts accuracy submissions i j st =
     (case st of (e, s, comparison_count) \<Rightarrow>
        bind_err (py_getitem submissions (int i)) (\<lambda>sub_a.
        bind_err (py_getitem submissions (int j)) (\<lambda>sub_b.
          let comp_id = ''comp_'' @ fmt_03d comparison_count;
              (correct_winner, s) = correct_winner_of R (sub_grade sub_a) (sub_grade sub_b) s;
              (w, s) = winner_of R accuracy correct_winner s;
              call = comparison_call ts comparison_count sub_a sub_b w;
              e = add_llm_call call e;
              (conf, s) = random_uniform R 0.6 0.95 s;
              e = add_comparison
                    \<lparr>comparison_id = comp_id,
                     submission_a = sub_id sub_a,
                     submission_b = sub_id sub_b,
                     winner = w,
                     cmp_call_ids = [call_id call],
                     compared_at = ts + 100000 + int comparison_count * 1000 + 500,
                     confidence = conf,
                     justification = ''Submission '' @ upper w
                       @ '' shows better analysis and clearer argumentation.''\<rparr> e
          in Inr (e, s, comparison_count + 1))))"

text \<open>
  Lines 79 and 80: \<^verbatim>\<open>for i in range(n): for j in range(i + 1, min(i + 3, n))\<close>.
\<close>

definition comparison_loop ::
  "'s random_module \<Rightarrow> int \<Rightarrow> real \<Rightarrow> submission list
     \<Rightarrow> egf \<times> 's \<times> nat \<Rightarrow> py_error + egf \<times> 's \<times> nat" where
  "comparison_loop R ts accuracy submissions =
     for_each
       (\<lambda>i. for_each (comparison_body R ts accuracy submissions i)
               [i + 1 ..< min (i + 3) (length submissions)])
       [0 ..< length submissions]"

section \<open>The anchor pass (source lines 137 to 170)\<close>

definition anchor_call :: "int \<Rightarrow> nat \<Rightarrow> submission \<Rightarrow> llm_call" where
  "anchor_call ts i sub =
     \<lparr>call_id = ''ext_comp_call_'' @ fmt_03d i,
      timestamp = ts + 200000 + int i * 1000,
      model = ''claude-sonnet-4-20250514'',
      temperature = 0.0,
      max_tokens = 4096,
      messages = [\<lparr>role = ''user'',
                    content = ''Compare '' @ sub_id sub @ '' against exemplar anchor...''\<rparr>],
      output_content = ''Winner: A\<newline>\<newline>The submission exceeds the anchor quality...'',
      stop_reason = ''end_turn'',
      input_tokens = 4000,
      output_tokens = 600,
      latency_ms = 3500\<rparr>"

definition anchor_body :: "int \<Rightarrow> submission list \<Rightarrow> nat \<Rightarrow> egf \<Rightarrow> py_error + egf" where
  "anchor_body ts submissions i e =
     bind_err (py_getitem submissions (int i)) (\<lambda>sub.
       let call = anchor_call ts i sub;
           e = add_llm_call call e
       in Inr (add_comparison
                 \<lparr>comparison_id = ''ext_comp_'' @ fmt_03d i,
                  submission_a = sub_id sub,
                  submission_b = ''external_anchor_exemplar'',
                  winner = ''a'',
                  cmp_call_ids = [call_id call],
                  compared_at = ts + 200000 + int i * 1000 + 500,
                  confidence = 0.85,
                  justification = ''Submission exceeds the anchor quality in argumentation.''\<rparr>
                 e))"

definition anchor_loop :: "int \<Rightarrow> submission list \<Rightarrow> egf \<Rightarrow> py_error + egf" where
  "anchor_loop ts submissions = for_each (anchor_body ts submissions) [0 ..< 3]"

section \<open>The generation routine (source lines 13 to 178)\<close>

text \<open>
  \<open>create_egf_with_comparisons R now submissions \<dots>\<close> is the routine after the submission
  set has been loaded: \<open>submissions\<close> is the list read from the EDF file, \<open>now\<close> the
  clock reading \<^verbatim>\<open>int(datetime.now().timestamp() * 1000)\<close> of line 29. The result
  \<open>Inr e\<close> is the artifact handed to \<^verbatim>\<open>egf.save\<close> on line 173; \<open>Inl err\<close> is an
  exception raised before that line. The messages printed are not modelled.
\<close>

definition create_egf_with_comparisons ::
  "'s random_module \<Rightarrow> int \<Rightarrow> submission list \<Rightarrow> string \<Rightarrow> string \<Rightarrow> real \<Rightarrow> int \<Rightarrow> string
     \<Rightarrow> py_error + egf" where
  "create_egf_with_comparisons R now submissions edf_path output_path accuracy seed description =
     (let e = reference_edf edf_path description;
          ts = now;
          s = random_seed R seed
      in bind_err (for_each (grade_body R ts) (enumerate 0 submissions) (e, s)) (\<lambda>(e, s).
         bind_err (comparison_loop R ts accuracy submissions (e, s, 0)) (\<lambda>(e, s, comparison_count).
         bind_err (anchor_loop ts submissions e) (\<lambda>e.
         Inr e))))"

text \<open>
  The parameter \<^verbatim>\<open>seed\<close> is annotated \<^verbatim>\<open>int\<close>, and Python does not enforce the
  annotation: line 30 hands whatever the caller passed to \<^verbatim>\<open>random.seed\<close>. The routine
  for a seed of any type \<open>'v\<close> takes the library's \<^verbatim>\<open>random.seed\<close> on such values as
  the parameter \<open>seed_any\<close>: it returns the seeded generator state or raises, and for a
  value of a type it does not support it raises \<^verbatim>\<open>TypeError\<close>. Nothing catches the
  exception, so it ends the routine at line 30. For an \<^verbatim>\<open>int\<close> seed this routine is
  \<open>create_egf_with_comparisons\<close>.
\<close>

definition create_egf_with_comparisons_any ::
  "'s random_module \<Rightarrow> ('v \<Rightarrow> py_error + 's) \<Rightarrow> int \<Rightarrow> submission list \<Rightarrow> string \<Rightarrow> string
     \<Rightarrow> real \<Rightarrow> 'v \<Rightarrow> string \<Rightarrow> py_error + egf" where
  "create_egf_with_comparisons_any R seed_any now submissions edf_path output_path accuracy seed
     description =
     (let e = reference_edf edf_path description;
          ts = now
      in bind_err (seed_any seed) (\<lambda>s.
         bind_err (for_each (grade_body R ts) (enumerate 0 submissions) (e, s)) (\<lambda>(e, s).
         bind_err (comparison_loop R ts accuracy submissions (e, s, 0)) (\<lambda>(e, s, comparison_count).
         bind_err (anchor_loop ts submissions e) (\<lambda>e.
         Inr e)))))"

section \<open>Specification-level notions\<close>

text \<open>
  The distribution in the words of the specification: 0.7 at the predicted grade, 0.15 at
  each neighbour inside \<open>0..10\<close>, the 0.15 of a neighbour outside the range added to the
  predicted grade, 0 elsewhere.
\<close>

definition dist_spec :: "int \<Rightarrow> real list" where
  "dist_spec p =
     map (\<lambda>k. if int k = p
               then 0.7 + (if p = 0 then 0.15 else 0) + (if p = 10 then 0.15 else 0)
               else if int k = p - 1 \<or> int k = p + 1 then 0.15 else 0) [0..<11]"

section \<open>Closed forms of the three passes\<close>

text \<open>
  The records each pass appends, as functions of the inputs and of the generator state at
  the start of the pass. The lemmas below prove that the loops of the routine produce
  exactly these records; the theorems about the routine are derived from them.
\<close>

definition grade_result_of :: "'s random_module \<Rightarrow> int \<Rightarrow> nat \<Rightarrow> submission \<Rightarrow> 's \<Rightarrow> grade_result" where
  "grade_result_of R ts i sub s =
     (let p = predicted_grade_of (sub_grade sub) (fst (random_randint R (- 1) 1 s))
      in \<lparr>gr_submission_id = sub_id sub, gr_grade = p, gr_grade_distribution = dist_spec p,
          gr_call_ids = [call_id (grade_call ts i sub)], gr_graded_at = ts + int i * 1000 + 500\<rparr>)"

fun grade_records ::
  "'s random_module \<Rightarrow> int \<Rightarrow> nat \<Rightarrow> submission list \<Rightarrow> 's \<Rightarrow> (llm_call \<times> grade_result) list" where
  "grade_records R ts i [] s = []"
| "grade_records R ts i (sub # subs) s =
     (grade_call ts i sub, grade_result_of R ts i sub s)
       # grade_records R ts (Suc i) subs (snd (random_randint R (- 1) 1 s))"

fun grade_final :: "'s random_module \<Rightarrow> submission list \<Rightarrow> 's \<Rightarrow> 's" where
  "grade_final R [] s = s"
| "grade_final R (sub # subs) s = grade_final R subs (snd (random_randint R (- 1) 1 s))"

definition comparison_record ::
  "'s random_module \<Rightarrow> int \<Rightarrow> real \<Rightarrow> submission \<Rightarrow> submission \<Rightarrow> nat \<Rightarrow> 's
     \<Rightarrow> llm_call \<times> comparison" where
  "comparison_record R ts accuracy sub_a sub_b c s =
     (let cw = correct_winner_of R (sub_grade sub_a) (sub_grade sub_b) s;
          w = winner_of R accuracy (fst cw) (snd cw);
          call = comparison_call ts c sub_a sub_b (fst w)
      in (call,
          \<lparr>comparison_id = ''comp_'' @ fmt_03d c,
           submission_a = sub_id sub_a,
           submission_b = sub_id sub_b,
           winner = fst w,
           cmp_call_ids = [call_id call],
           compared_at = ts + 100000 + int c * 1000 + 500,
           confidence = fst (random_uniform R 0.6 0.95 (snd w)),
           justification = ''Submission '' @ upper (fst w)
             @ '' shows better analysis and clearer argumentation.''\<rparr>))"

definition comparison_next ::
  "'s random_module \<Rightarrow> real \<Rightarrow> submission \<Rightarrow> submission \<Rightarrow> 's \<Rightarrow> 's" where
  "comparison_next R accuracy sub_a sub_b s =
     (let cw = correct_winner_of R (sub_grade sub_a) (sub_grade sub_b) s;
          w = winner_of R accuracy (fst cw) (snd cw)
      in snd (random_uniform R 0.6 0.95 (snd w)))"

fun comparison_records ::
  "'s random_module \<Rightarrow> int \<Rightarrow> real \<Rightarrow> submission list \<Rightarrow> (nat \<times> nat) list \<Rightarrow> nat \<Rightarrow> 's
     \<Rightarrow> (llm_call \<times> comparison) list" where
  "comparison_records R ts accuracy subs [] c s = []"
| "comparison_records R ts accuracy subs ((i, j) # ps) c s =
     comparison_record R ts accuracy (subs ! i) (subs ! j) c s
       # comparison_records R ts accuracy subs ps (Suc c)
           (comparison_next R accuracy (subs ! i) (subs ! j) s)"

fun comparison_final ::
  "'s random_module \<Rightarrow> real \<Rightarrow> submission list \<Rightarrow> (nat \<times> nat) list \<Rightarrow> 's \<Rightarrow> 's" where
  "comparison_final R accuracy subs [] s = s"
| "comparison_final R accuracy subs ((i, j) # ps) s =
     comparison_final R accuracy subs ps (comparison_next R accuracy (subs ! i) (subs ! j) s)"

definition pair_indices :: "nat \<Rightarrow> (nat \<times> nat) list" where
  "pair_indices n = concat (map (\<lambda>i. map (Pair i) [i + 1 ..< min (i + 3) n]) [0 ..< n])"

definition anchor_comparison :: "int \<Rightarrow> nat \<Rightarrow> submission \<Rightarrow> comparison" where
  "anchor_comparison ts i sub =
     \<lparr>comparison_id = ''ext_comp_'' @ fmt_03d i,
      submission_a = sub_id sub,
      submission_b = ''external_anchor_exemplar'',
      winner = ''a'',
      cmp_call_ids = [call_id (anchor_call ts i sub)],
      compared_at = ts + 200000 + int i * 1000 + 500,
      confidence = 0.85,
      justification = ''Submission exceeds the anchor quality in argumentation.''\<rparr>"

definition run_grades :: "'s random_module \<Rightarrow> int \<Rightarrow> submission list \<Rightarrow> int \<Rightarrow> (llm_call \<times> grade_result) list" where
  "run_grades R now subs seed = grade_records R now 0 subs (random_seed R seed)"

definition run_comparisons ::
  "'s random_module \<Rightarrow> int \<Rightarrow> submission list \<Rightarrow> real \<Rightarrow> int \<Rightarrow> (llm_call \<times> comparison) list" where
  "run_comparisons R now subs accuracy seed =
     comparison_records R now accuracy subs (pair_indices (length subs)) 0
       (grade_final R subs (random_seed R seed))"

text \<open>The generator state before the draw of the grading loop's iteration \<open>k\<close>.\<close>

fun grade_state :: "'s random_module \<Rightarrow> 's \<Rightarrow> nat \<Rightarrow> 's" where
  "grade_state R s 0 = s"
| "grade_state R s (Suc k) = grade_state R (snd (random_randint R (- 1) 1 s)) k"

text \<open>A grade result and a comparison with the timestamp moved by \<open>d\<close> milliseconds.\<close>

definition shift_grade_result :: "int \<Rightarrow> grade_result \<Rightarrow> grade_result" where
  "shift_grade_result d g = g\<lparr>gr_graded_at := gr_graded_at g + d\<rparr>"

definition shift_comparison :: "int \<Rightarrow> comparison \<Rightarrow> comparison" where
  "shift_comparison d c = c\<lparr>compared_at := compared_at c + d\<rparr>"

section \<open>A generator for concrete runs\<close>

text \<open>
  To evaluate the routine on concrete inputs the generator is instantiated by a tape: the
  state is a list of natural numbers, each draw consumes the head (0 once the tape is empty)
  and maps it into the range of the operation. \<open>tape_of\<close> gives the tape for a seed.
\<close>

definition tape_next :: "nat list \<Rightarrow> nat \<times> nat list" where
  "tape_next t = (case t of [] \<Rightarrow> (0, []) | x # t' \<Rightarrow> (x, t'))"

definition tape_random :: "(int \<Rightarrow> nat list) \<Rightarrow> nat list random_module" where
  "tape_random tape_of =
     \<lparr>random_seed = tape_of,
      random_randint = (\<lambda>a b t. (a + int (fst (tape_next t) mod nat (b - a + 1)), snd (tape_next t))),
      random_choice = (\<lambda>xs t. (xs ! (fst (tape_next t) mod length xs), snd (tape_next t))),
      random_random = (\<lambda>t. (real (fst (tape_next t) mod 100) / 100, snd (tape_next t))),
      random_uniform = (\<lambda>a b t. (a + (b - a) * (real (fst (tape_next t) mod 100) / 100),
                                 snd (tape_next t)))\<rparr>"

text \<open>
  Seeds for concrete runs: an integer, or a Python list of integers, a type that
  \<^verbatim>\<open>random.seed\<close> does not support.
\<close>

datatype seed_value = Seed_int int | Seed_list "int list"

definition tape_seed :: "(int \<Rightarrow> nat list) \<Rightarrow> seed_value \<Rightarrow> py_error + nat list" where
  "tape_seed tape_of v = (case v of Seed_int k \<Rightarrow> Inr (tape_of k) | Seed_list ks \<Rightarrow> Inl TypeError)"

definition three_submissions :: "submission list" where
  "three_submissions =
     [\<lparr>sub_id = ''s1'', sub_grade = 3\<rparr>,
      \<lparr>sub_id = ''s2'', sub_grade = 5\<rparr>,
      \<lparr>sub_id = ''s3'', sub_grade = 5\<rparr>]"

definition four_submissions :: "submission list" where
  "four_submissions =
     [\<lparr>sub_id = ''s1'', sub_grade = 3\<rparr>,
      \<lparr>sub_id = ''s2'', sub_grade = 5\<rparr>,
      \<lparr>sub_id = ''s3'', sub_grade = 5\<rparr>,
      \<lparr>sub_id = ''s4'', sub_grade = 7\<rparr>]"

definition anchored_submissions :: "submission list" where
  "anchored_submissions =
     [\<lparr>sub_id = ''external_anchor_exemplar'', sub_grade = 3\<rparr>,
      \<lparr>sub_id = ''s2'', sub_grade = 5\<rparr>,
      \<lparr>sub_id = ''s3'', sub_grade = 5\<rparr>]"

definition boundary_submissions :: "submission list" where
  "boundary_submissions =
     [\<lparr>sub_id = ''s1'', sub_grade = 0\<rparr>,
      \<lparr>sub_id = ''s2'', sub_grade = 5\<rparr>,
      \<lparr>sub_id = ''s3'', sub_grade = 5\<rparr>]"

section \<open>The distribution builder\<close>

lemma build_dist_cases:
  assumes "0 \<le> p" and "p \<le> 10"
  shows "p = 0 \<or> p = 1 \<or> p = 2 \<or> p = 3 \<or> p = 4 \<or> p = 5 \<or> p = 6 \<or> p = 7 \<or> p = 8 \<or> p = 9 \<or> p = (10::int)"
  using assms by arith

lemma upt_11: "[0..<11] = [0, 1, 2, 3, 4, 5, 6, 7, 8, 9, 10]"
  by (simp add: upt_rec)

lemma build_dist_eq:
  assumes "0 \<le> p" and "p \<le> 10"
  shows "build_dist p = Inr (dist_spec p)"
  using build_dist_cases [OF assms]
  by (elim disjE;
      simp add: build_dist_def bind_err_def py_setitem_def py_getitem_def norm_index_def
        dist_spec_def upt_11 eval_nat_numeral)

lemma length_dist_spec: "length (dist_spec p) = 11"
  by (simp add: dist_spec_def)

lemma dist_spec_nth:
  assumes "k < 11"
  shows "dist_spec p ! k =
           (if int k = p
            then 0.7 + (if p = 0 then 0.15 else 0) + (if p = 10 then 0.15 else 0)
            else if int k = p - 1 \<or> int k = p + 1 then 0.15 else 0)"
  unfolding dist_spec_def using assms by (subst nth_map) (simp_all del: upt_Suc)

lemma dist_spec_sum:
  assumes "0 \<le> p" and "p \<le> 10"
  shows "sum_list (dist_spec p) = 1"
  using build_dist_cases [OF assms]
  by (elim disjE; simp add: dist_spec_def upt_11)

lemma dist_spec_nonneg:
  assumes "x \<in> set (dist_spec p)"
  shows "0 \<le> x"
  using assms by (auto simp: dist_spec_def)

text \<open>
  Claim C2. For every predicted grade \<open>p\<close> in \<open>0..10\<close> the builder returns, without
  raising, an 11-element list \<open>D\<close>: \<open>D[p]\<close> is 0.7 plus 0.15 for each neighbour of \<open>p\<close>
  that is out of range, each neighbour in range holds 0.15, every other entry is 0. Hence
  the entries sum to exactly 1, none is negative, and \<open>D[p] \<ge> 0.7\<close>.
\<close>

theorem build_dist_distribution:
  assumes "0 \<le> p" and "p \<le> 10"
  shows "\<exists>D. build_dist p = Inr D \<and> D = dist_spec p \<and> length D = 11
           \<and> D ! nat p = 0.7 + (if p = 0 then 0.15 else 0) + (if p = 10 then 0.15 else 0)
           \<and> (0 < p \<longrightarrow> D ! nat (p - 1) = 0.15)
           \<and> (p < 10 \<longrightarrow> D ! nat (p + 1) = 0.15)
           \<and> (\<forall>k<11. int k \<noteq> p - 1 \<and> int k \<noteq> p \<and> int k \<noteq> p + 1 \<longrightarrow> D ! k = 0)
           \<and> sum_list D = 1
           \<and> (\<forall>x\<in>set D. 0 \<le> x)
           \<and> 0.7 \<le> D ! nat p"
proof -
  have here: "dist_spec p ! nat p
                = 0.7 + (if p = 0 then 0.15 else 0) + (if p = 10 then 0.15 else 0)"
    using assms by (simp add: dist_spec_nth)
  have below: "0 < p \<longrightarrow> dist_spec p ! nat (p - 1) = 0.15"
    using assms by (simp add: dist_spec_nth)
  have above: "p < 10 \<longrightarrow> dist_spec p ! nat (p + 1) = 0.15"
    using assms by (simp add: dist_spec_nth)
  have elsewhere:
    "\<forall>k<11. int k \<noteq> p - 1 \<and> int k \<noteq> p \<and> int k \<noteq> p + 1 \<longrightarrow> dist_spec p ! k = 0"
    by (simp add: dist_spec_nth)
  have mode: "0.7 \<le> dist_spec p ! nat p"
    unfolding here by simp
  show ?thesis
    using build_dist_eq [OF assms] length_dist_spec [of p] here below above elsewhere
      dist_spec_sum [OF assms] dist_spec_nonneg [of _ p] mode
    by blast
qed

theorem build_dist_distribution_witness:
  "\<exists>D. build_dist 10 = Inr D \<and> length D = 11 \<and> D ! 10 = 0.85 \<and> D ! 9 = 0.15
        \<and> D ! 3 = 0 \<and> sum_list D = 1"
  using build_dist_distribution [of 10] by simp

section \<open>The loops of the routine\<close>

lemma bind_err_Inr [simp]: "bind_err (Inr v) f = f v"
  by (simp add: bind_err_def)

lemma bind_err_Inl [simp]: "bind_err (Inl e) f = Inl e"
  by (simp add: bind_err_def)

lemma py_getitem_nat:
  "py_getitem xs (int i) = (if i < length xs then Inr (xs ! i) else Inl IndexError)"
  by (simp add: py_getitem_def norm_index_def)

lemma for_each_append:
  "for_each body (xs @ ys) st = bind_err (for_each body xs st) (for_each body ys)"
  by (induction xs arbitrary: st) (auto simp: bind_err_def split: sum.splits)

lemma for_each_map:
  "for_each body (map f xs) st = for_each (\<lambda>x. body (f x)) xs st"
  by (induction xs arbitrary: st) (auto simp: bind_err_def split: sum.splits)

lemma for_each_nested:
  "for_each (\<lambda>i. for_each (body i) (js i)) is st
     = for_each (\<lambda>(i, j). body i j) (concat (map (\<lambda>i. map (Pair i) (js i)) is)) st"
  by (induction "is" arbitrary: st) (auto simp: for_each_append for_each_map bind_err_def split: sum.splits)

lemma predicted_grade_range: "0 \<le> predicted_grade_of g d \<and> predicted_grade_of g d \<le> 10"
  by (simp add: predicted_grade_of_def)

lemma grade_body_eq:
  "grade_body R ts (i, sub) (e, s)
     = Inr (add_grade_result (grade_result_of R ts i sub s) (add_llm_call (grade_call ts i sub) e),
            snd (random_randint R (- 1) 1 s))"
proof -
  obtain noise s' where draw: "random_randint R (- 1) 1 s = (noise, s')"
    by fastforce
  have "build_dist (predicted_grade_of (sub_grade sub) noise)
          = Inr (dist_spec (predicted_grade_of (sub_grade sub) noise))"
    using predicted_grade_range by (intro build_dist_eq) auto
  then show ?thesis
    by (simp add: grade_body_def grade_result_of_def draw Let_def)
qed

lemma grade_loop_eq:
  "for_each (grade_body R ts) (enumerate i subs) (e, s)
     = Inr (e\<lparr>llm_calls := llm_calls e @ map fst (grade_records R ts i subs s),
              grade_results := grade_results e @ map snd (grade_records R ts i subs s)\<rparr>,
            grade_final R subs s)"
proof (induction subs arbitrary: i e s)
  case Nil
  show ?case by simp
next
  case (Cons sub subs)
  show ?case
    by (simp add: grade_body_eq Cons.IH add_llm_call_def add_grade_result_def)
qed

lemma comparison_body_eq:
  assumes "i < length subs" and "j < length subs"
  shows "comparison_body R ts accuracy subs i j (e, s, c)
           = Inr (add_comparison (snd (comparison_record R ts accuracy (subs ! i) (subs ! j) c s))
                    (add_llm_call (fst (comparison_record R ts accuracy (subs ! i) (subs ! j) c s)) e),
                  comparison_next R accuracy (subs ! i) (subs ! j) s, Suc c)"
  using assms
  by (simp add: comparison_body_def py_getitem_nat comparison_record_def comparison_next_def
        Let_def case_prod_beta)

lemma comparison_pairs_eq:
  assumes "\<forall>(i, j) \<in> set ps. i < length subs \<and> j < length subs"
  shows "for_each (\<lambda>(i, j). comparison_body R ts accuracy subs i j) ps (e, s, c)
           = Inr (e\<lparr>llm_calls := llm_calls e @ map fst (comparison_records R ts accuracy subs ps c s),
                    comparisons := comparisons e @ map snd (comparison_records R ts accuracy subs ps c s)\<rparr>,
                  comparison_final R accuracy subs ps s, c + length ps)"
  using assms
proof (induction ps arbitrary: e s c)
  case Nil
  show ?case by simp
next
  case (Cons p ps)
  obtain i j where p: "p = (i, j)" by (cases p)
  from Cons.prems p have ij: "i < length subs" "j < length subs" by auto
  from Cons.prems have rest: "\<forall>(i, j) \<in> set ps. i < length subs \<and> j < length subs" by auto
  show ?case
    by (simp add: p comparison_body_eq [OF ij] Cons.IH [OF rest] add_llm_call_def add_comparison_def)
qed

lemma pair_indices_in_range:
  assumes "(i, j) \<in> set (pair_indices n)"
  shows "i < n \<and> j < n \<and> i < j \<and> (j = i + 1 \<or> j = i + 2)"
  using assms by (auto simp: pair_indices_def)

lemma comparison_loop_eq:
  "comparison_loop R ts accuracy subs (e, s, c)
     = Inr (e\<lparr>llm_calls := llm_calls e
                 @ map fst (comparison_records R ts accuracy subs (pair_indices (length subs)) c s),
              comparisons := comparisons e
                 @ map snd (comparison_records R ts accuracy subs (pair_indices (length subs)) c s)\<rparr>,
            comparison_final R accuracy subs (pair_indices (length subs)) s,
            c + length (pair_indices (length subs)))"
proof -
  have "\<forall>(i, j) \<in> set (pair_indices (length subs)). i < length subs \<and> j < length subs"
    using pair_indices_in_range by blast
  from comparison_pairs_eq [OF this] show ?thesis
    by (simp add: comparison_loop_def for_each_nested pair_indices_def)
qed

lemma anchor_body_eq:
  "anchor_body ts subs i e
     = (if i < length subs
        then Inr (add_comparison (anchor_comparison ts i (subs ! i))
                    (add_llm_call (anchor_call ts i (subs ! i)) e))
        else Inl IndexError)"
  by (simp add: anchor_body_def py_getitem_nat anchor_comparison_def Let_def)

lemma upt_3: "[0..<3] = [0, 1, 2]"
  by (simp add: upt_rec)

lemma anchor_loop_ok:
  assumes "3 \<le> length subs"
  shows "anchor_loop ts subs e
           = Inr (e\<lparr>llm_calls := llm_calls e @ map (\<lambda>i. anchor_call ts i (subs ! i)) [0, 1, 2],
                    comparisons := comparisons e
                      @ map (\<lambda>i. anchor_comparison ts i (subs ! i)) [0, 1, 2]\<rparr>)"
proof -
  from assms have "0 < length subs" "1 < length subs" "2 < length subs"
    by linarith+
  then show ?thesis
    by (simp add: anchor_loop_def upt_3 anchor_body_eq add_llm_call_def add_comparison_def)
qed

lemma anchor_loop_fails:
  assumes "length subs < 3"
  shows "anchor_loop ts subs e = Inl IndexError"
proof -
  from assms consider "length subs = 0" | "length subs = 1" | "length subs = 2"
    by linarith
  then show ?thesis
    by cases (simp_all add: anchor_loop_def upt_3 anchor_body_eq)
qed

lemma run_ok:
  assumes "3 \<le> length subs"
  shows "create_egf_with_comparisons R now subs edf_path output_path accuracy seed description
           = Inr \<lparr>edf_ref = edf_path, egf_description = description,
                  llm_calls = map fst (run_grades R now subs seed)
                    @ map fst (run_comparisons R now subs accuracy seed)
                    @ map (\<lambda>i. anchor_call now i (subs ! i)) [0, 1, 2],
                  grade_results = map snd (run_grades R now subs seed),
                  comparisons = map snd (run_comparisons R now subs accuracy seed)
                    @ map (\<lambda>i. anchor_comparison now i (subs ! i)) [0, 1, 2]\<rparr>"
  by (simp add: create_egf_with_comparisons_def grade_loop_eq comparison_loop_eq
        anchor_loop_ok [OF assms] reference_edf_def run_grades_def run_comparisons_def Let_def)

lemma run_fails:
  assumes "length subs < 3"
  shows "create_egf_with_comparisons R now subs edf_path output_path accuracy seed description
           = Inl IndexError"
  by (simp add: create_egf_with_comparisons_def grade_loop_eq comparison_loop_eq
        anchor_loop_fails [OF assms] Let_def)

section \<open>The pair generator\<close>

lemma pair_indices_mem:
  "(i, j) \<in> set (pair_indices n) \<longleftrightarrow> i < j \<and> (j = i + 1 \<or> j = i + 2) \<and> j < n"
proof -
  have "(i, j) \<in> set (pair_indices n) \<longleftrightarrow> i < n \<and> i + 1 \<le> j \<and> j < min (i + 3) n"
    unfolding pair_indices_def by (simp add: image_iff)
  also have "\<dots> \<longleftrightarrow> i < j \<and> (j = i + 1 \<or> j = i + 2) \<and> j < n"
    by auto
  finally show ?thesis .
qed

lemma pair_indices_set:
  "set (pair_indices n) = {(i, j). i < j \<and> (j = i + 1 \<or> j = i + 2) \<and> j < n}"
  using pair_indices_mem by auto

lemma distinct_concat_pairs:
  assumes "distinct is" and "\<And>k. distinct (js k)"
  shows "distinct (concat (map (\<lambda>k. map (Pair k) (js k)) is))"
  using assms(1)
proof (induction "is")
  case Nil
  show ?case by simp
next
  case (Cons k ks)
  have "distinct (map (Pair k) (js k))"
    using assms(2) by (simp add: distinct_map inj_on_def)
  moreover have "set (map (Pair k) (js k)) \<inter> set (concat (map (\<lambda>k. map (Pair k) (js k)) ks)) = {}"
    using Cons.prems by auto
  ultimately show ?case
    using Cons by simp
qed

lemma distinct_pair_indices: "distinct (pair_indices n)"
  unfolding pair_indices_def by (rule distinct_concat_pairs) simp_all

lemma filter_fst_concat:
  assumes "distinct is"
  shows "filter (\<lambda>p. fst p = i) (concat (map (\<lambda>k. map (Pair k) (js k)) is))
           = (if i \<in> set is then map (Pair i) (js i) else [])"
  using assms
proof (induction "is")
  case Nil
  show ?case by simp
next
  case (Cons k ks)
  then have IH: "filter (\<lambda>p. fst p = i) (concat (map (\<lambda>k. map (Pair k) (js k)) ks))
                   = (if i \<in> set ks then map (Pair i) (js i) else [])"
    by simp
  show ?case
  proof (cases "k = i")
    case True
    have "filter (\<lambda>p. fst p = i) (map (Pair i) (js i)) = map (Pair i) (js i)"
      by (simp add: filter_id_conv)
    moreover have "i \<notin> set ks"
      using Cons.prems True by simp
    ultimately show ?thesis
      using True IH by simp
  next
    case False
    then have "filter (\<lambda>p. fst p = i) (map (Pair k) (js k)) = []"
      by (simp add: filter_empty_conv)
    then show ?thesis
      using False IH by auto
  qed
qed

lemma pair_indices_earlier:
  assumes "i < n"
  shows "filter (\<lambda>p. fst p = i) (pair_indices n) = map (Pair i) [i + 1 ..< min (i + 3) n]"
  using assms by (simp add: pair_indices_def filter_fst_concat)

lemma upt_two: "[Suc i ..< i + 3] = [Suc i, Suc (Suc i)]"
proof -
  have "[Suc i ..< i + 3] = [Suc i ..< Suc (Suc (Suc i))]"
    by (simp add: numeral_3_eq_3)
  also have "\<dots> = [Suc i, Suc (Suc i)]"
    by (simp add: upt_conv_Cons)
  finally show ?thesis .
qed

lemma pair_indices_earlier_two:
  assumes "i + 2 < n"
  shows "filter (\<lambda>p. fst p = i) (pair_indices n) = [(i, i + 1), (i, i + 2)]"
proof -
  from assms have "min (i + 3) n = i + 3"
    by simp
  with assms show ?thesis
    by (simp add: pair_indices_earlier upt_two del: upt_Suc)
qed

lemma length_concat_pairs:
  "length (concat (map (\<lambda>i. [(i, f i), (i, g i)]) xs)) = 2 * length xs"
  by (induction xs) auto

lemma pair_indices_closed:
  "pair_indices (m + 2)
     = concat (map (\<lambda>i. [(i, i + 1), (i, i + 2)]) [0 ..< m]) @ [(m, m + 1)]"
proof -
  have split: "[0 ..< m + 2] = [0 ..< m] @ [m, m + 1]"
    by simp
  have inner: "map (\<lambda>i. map (Pair i) [i + 1 ..< min (i + 3) (m + 2)]) [0 ..< m]
                 = map (\<lambda>i. [(i, i + 1), (i, i + 2)]) [0 ..< m]"
  proof (rule map_cong [OF refl])
    fix i assume "i \<in> set [0 ..< m]"
    then have "min (i + 3) (m + 2) = i + 3" by simp
    then show "map (Pair i) [i + 1 ..< min (i + 3) (m + 2)] = [(i, i + 1), (i, i + 2)]"
      by (simp add: upt_two del: upt_Suc)
  qed
  have last_two: "concat (map (\<lambda>i. map (Pair i) [i + 1 ..< min (i + 3) (m + 2)]) [m, m + 1])
                    = [(m, m + 1)]"
    by simp
  show ?thesis
    unfolding pair_indices_def split map_append concat_append inner last_two ..
qed

lemma length_pair_indices:
  "length (pair_indices n) = (if 2 \<le> n then 2 * n - 3 else 0)"
proof (cases "2 \<le> n")
  case True
  then obtain m where n: "n = m + 2"
    by (metis add.commute le_Suc_ex)
  show ?thesis
    unfolding n pair_indices_closed by (simp add: length_concat_pairs)
next
  case False
  then have "n = 0 \<or> n = 1" by arith
  then show ?thesis
    by (auto simp: pair_indices_def)
qed

section \<open>Pair coverage and runs with too few submissions\<close>

lemma comparison_record_participants:
  "submission_a (snd (comparison_record R ts accuracy sub_a sub_b c s)) = sub_id sub_a"
  "submission_b (snd (comparison_record R ts accuracy sub_a sub_b c s)) = sub_id sub_b"
  by (simp_all add: comparison_record_def Let_def)

lemma comparison_records_participants:
  "map (\<lambda>x. (submission_a x, submission_b x)) (map snd (comparison_records R ts accuracy subs ps c s))
     = map (\<lambda>(i, j). (sub_id (subs ! i), sub_id (subs ! j))) ps"
  by (induction ps arbitrary: c s) (auto simp: comparison_record_participants)

lemma length_comparison_records [simp]:
  "length (comparison_records R ts accuracy subs ps c s) = length ps"
  by (induction ps arbitrary: c s) auto

lemma length_grade_records [simp]:
  "length (grade_records R ts i subs s) = length subs"
  by (induction subs arbitrary: i s) auto

text \<open>
  Claim C5. The comparison loop never raises; the comparisons it appends are, in order, the
  pairs of \<open>pair_indices n\<close>, the enumeration of lines 79 and 80, and the counter advances
  by their number. These pairs are exactly the \<open>(i, j)\<close> with \<open>i < j\<close>, \<open>j\<close> one of
  \<open>i + 1\<close>, \<open>i + 2\<close>, and \<open>j < n\<close>, each once. Their number is at most \<open>2n\<close>, exactly
  \<open>2n - 3\<close> for \<open>n \<ge> 2\<close>, and every index \<open>i < n - 2\<close> is the earlier member of exactly
  the two pairs \<open>(i, i + 1)\<close> and \<open>(i, i + 2)\<close>.
\<close>

theorem pair_generator:
  "(\<exists>e' s' cs.
       comparison_loop R ts accuracy subs (e, s, c)
         = Inr (e', s', c + length (pair_indices (length subs)))
       \<and> comparisons e' = comparisons e @ cs
       \<and> map (\<lambda>x. (submission_a x, submission_b x)) cs
           = map (\<lambda>(i, j). (sub_id (subs ! i), sub_id (subs ! j))) (pair_indices (length subs)))
   \<and> set (pair_indices (length subs))
       = {(i, j). i < j \<and> (j = i + 1 \<or> j = i + 2) \<and> j < length subs}
   \<and> distinct (pair_indices (length subs))
   \<and> length (pair_indices (length subs)) \<le> 2 * length subs
   \<and> (2 \<le> length subs \<longrightarrow> length (pair_indices (length subs)) = 2 * length subs - 3)
   \<and> (\<forall>i. i < length subs - 2 \<longrightarrow>
          filter (\<lambda>p. fst p = i) (pair_indices (length subs)) = [(i, i + 1), (i, i + 2)])"
proof -
  have loop: "\<exists>e' s' cs.
       comparison_loop R ts accuracy subs (e, s, c)
         = Inr (e', s', c + length (pair_indices (length subs)))
       \<and> comparisons e' = comparisons e @ cs
       \<and> map (\<lambda>x. (submission_a x, submission_b x)) cs
           = map (\<lambda>(i, j). (sub_id (subs ! i), sub_id (subs ! j))) (pair_indices (length subs))"
    unfolding comparison_loop_eq
    using comparison_records_participants [of R ts accuracy subs "pair_indices (length subs)" c s]
    by (intro exI conjI) (rule refl, simp, assumption)
  have count: "length (pair_indices (length subs)) \<le> 2 * length subs"
    by (simp add: length_pair_indices)
  have exact: "2 \<le> length subs \<longrightarrow> length (pair_indices (length subs)) = 2 * length subs - 3"
    by (simp add: length_pair_indices)
  have earlier: "\<forall>i. i < length subs - 2 \<longrightarrow>
          filter (\<lambda>p. fst p = i) (pair_indices (length subs)) = [(i, i + 1), (i, i + 2)]"
    by (simp add: pair_indices_earlier_two)
  show ?thesis
    using loop pair_indices_set [of "length subs"] distinct_pair_indices [of "length subs"]
      count exact earlier
    by blast
qed

theorem pair_generator_witness:
  "length (pair_indices 10) = 17
   \<and> filter (\<lambda>p. fst p = 7) (pair_indices 10) = [(7, 8), (7, 9)]
   \<and> (8, 9) \<in> set (pair_indices 10) \<and> (8, 10) \<notin> set (pair_indices 10)"
  using pair_generator [where subs = "replicate 10 \<lparr>sub_id = ''s'', sub_grade = 5\<rparr>"
      and R = "tape_random (\<lambda>seed. [])" and ts = 0 and accuracy = "0.8"
      and e = "reference_edf [] []" and s = "[]" and c = 0]
  by simp

text \<open>
  Claim C9. With fewer than 3 submissions the grading pass and the comparison pass
  complete, the anchor loop raises \<^verbatim>\<open>IndexError\<close> at \<^verbatim>\<open>submissions[i]\<close>, and the
  routine ends with that exception, never reaching line 173. With at least 3 submissions
  the routine returns the artifact.
\<close>

theorem fewer_than_three_submissions:
  "(length subs < 3 \<longrightarrow>
      (\<exists>e1 s1 e2 s2 c.
          for_each (grade_body R now) (enumerate 0 subs)
            (reference_edf edf_path description, random_seed R seed) = Inr (e1, s1)
          \<and> comparison_loop R now accuracy subs (e1, s1, 0) = Inr (e2, s2, c)
          \<and> anchor_loop now subs e2 = Inl IndexError
          \<and> (\<forall>e'. anchor_body now subs (length subs) e' = Inl IndexError))
      \<and> create_egf_with_comparisons R now subs edf_path output_path accuracy seed description
          = Inl IndexError)
   \<and> (3 \<le> length subs \<longrightarrow>
        (\<exists>e. create_egf_with_comparisons R now subs edf_path output_path accuracy seed
                description = Inr e))"
proof (intro conjI impI)
  assume short: "length subs < 3"
  show "\<exists>e1 s1 e2 s2 c.
          for_each (grade_body R now) (enumerate 0 subs)
            (reference_edf edf_path description, random_seed R seed) = Inr (e1, s1)
          \<and> comparison_loop R now accuracy subs (e1, s1, 0) = Inr (e2, s2, c)
          \<and> anchor_loop now subs e2 = Inl IndexError
          \<and> (\<forall>e'. anchor_body now subs (length subs) e' = Inl IndexError)"
    unfolding grade_loop_eq
    by (intro exI conjI, rule refl, rule comparison_loop_eq, rule anchor_loop_fails [OF short])
       (simp add: anchor_body_eq)
  show "create_egf_with_comparisons R now subs edf_path output_path accuracy seed description
          = Inl IndexError"
    by (rule run_fails [OF short])
next
  assume "3 \<le> length subs"
  then show "\<exists>e. create_egf_with_comparisons R now subs edf_path output_path accuracy seed
                description = Inr e"
    by (simp add: run_ok)
qed

theorem fewer_than_three_submissions_witness:
  "create_egf_with_comparisons (tape_random (\<lambda>seed. [])) 0 (take 2 three_submissions)
     ''in.edf'' ''out.egf'' 0.8 42 ''d'' = Inl IndexError
   \<and> (\<exists>e. create_egf_with_comparisons (tape_random (\<lambda>seed. [])) 0 three_submissions
     ''in.edf'' ''out.egf'' 0.8 42 ''d'' = Inr e)"
  using fewer_than_three_submissions [where subs = "take 2 three_submissions"
      and R = "tape_random (\<lambda>seed. [])" and now = 0 and edf_path = "''in.edf''"
      and output_path = "''out.egf''" and accuracy = "0.8" and seed = 42 and description = "''d''"]
    fewer_than_three_submissions [where subs = "three_submissions"
      and R = "tape_random (\<lambda>seed. [])" and now = 0 and edf_path = "''in.edf''"
      and output_path = "''out.egf''" and accuracy = "0.8" and seed = 42 and description = "''d''"]
  by (simp add: three_submissions_def)

section \<open>The grade synthesizer and the comparison synthesizer\<close>

lemma tape_randint_in_range: "randint_in_range (tape_random tape_of)"
  unfolding randint_in_range_def
proof (intro allI impI)
  fix a b :: int and s :: "nat list"
  assume "a \<le> b"
  then have pos: "0 < nat (b - a + 1)"
    by simp
  then have "fst (tape_next s) mod nat (b - a + 1) < nat (b - a + 1)"
    by (rule mod_less_divisor)
  then have "int (fst (tape_next s) mod nat (b - a + 1)) < int (nat (b - a + 1))"
    by (simp only: of_nat_less_iff)
  with pos have "int (fst (tape_next s) mod nat (b - a + 1)) < b - a + 1"
    by simp
  then show "a \<le> fst (random_randint (tape_random tape_of) a b s)
               \<and> fst (random_randint (tape_random tape_of) a b s) \<le> b"
    by (simp add: tape_random_def)
qed

lemma tape_choice_in_list: "choice_in_list (tape_random tape_of)"
  by (simp add: choice_in_list_def tape_random_def)

lemma tape_random_in_unit: "random_in_unit (tape_random tape_of)"
proof -
  have "real (n mod 100) < 100" for n :: nat
    by (metis mod_less_divisor of_nat_less_iff of_nat_numeral zero_less_numeral)
  then show ?thesis
    by (simp add: random_in_unit_def tape_random_def)
qed

text \<open>
  Claim C6. For a ground-truth grade \<open>g\<close> in \<open>0..10\<close> the body of the grading loop does
  not raise and appends one grade result whose grade is \<open>max 0 (min 10 (g + delta))\<close>,
  where \<open>delta\<close> is the value of \<^verbatim>\<open>random.randint(-1, 1)\<close> at the current generator
  state, one of \<open>-1\<close>, \<open>0\<close>, \<open>1\<close>. The grade lies in \<open>0..10\<close> and differs from \<open>g\<close> by at
  most 1. (That the draw is uniform is the library's contract for \<^verbatim>\<open>randint\<close>.)
\<close>

theorem predicted_grade_clamped:
  assumes "randint_in_range R" and "0 \<le> sub_grade sub" and "sub_grade sub \<le> 10"
  shows "\<exists>e' gr delta.
           grade_body R ts (i, sub) (e, s) = Inr (e', snd (random_randint R (- 1) 1 s))
           \<and> grade_results e' = grade_results e @ [gr]
           \<and> delta = fst (random_randint R (- 1) 1 s)
           \<and> delta \<in> {- 1, 0, 1}
           \<and> gr_grade gr = max 0 (min 10 (sub_grade sub + delta))
           \<and> 0 \<le> gr_grade gr \<and> gr_grade gr \<le> 10
           \<and> \<bar>gr_grade gr - sub_grade sub\<bar> \<le> 1"
proof -
  define delta where "delta = fst (random_randint R (- 1) 1 s)"
  have "- 1 \<le> delta \<and> delta \<le> 1"
    using assms(1) unfolding randint_in_range_def delta_def by simp
  then have delta: "delta \<in> {- 1, 0, 1}"
    by auto
  define gr where "gr = grade_result_of R ts i sub s"
  have grade: "gr_grade gr = max 0 (min 10 (sub_grade sub + delta))"
    by (simp add: gr_def grade_result_of_def predicted_grade_of_def delta_def Let_def)
  have bounds: "0 \<le> gr_grade gr \<and> gr_grade gr \<le> 10 \<and> \<bar>gr_grade gr - sub_grade sub\<bar> \<le> 1"
    unfolding grade using delta assms(2,3) by auto
  have "grade_results (add_grade_result gr (add_llm_call (grade_call ts i sub) e))
          = grade_results e @ [gr]"
    by (simp add: add_grade_result_def add_llm_call_def)
  with grade bounds delta show ?thesis
    unfolding grade_body_eq gr_def [symmetric] delta_def [symmetric] by blast
qed

theorem predicted_grade_clamped_witness:
  "randint_in_range (tape_random (\<lambda>seed. [2]))
   \<and> (\<exists>e' gr. grade_body (tape_random (\<lambda>seed. [2])) 0 (0, \<lparr>sub_id = ''s'', sub_grade = 10\<rparr>)
                  (reference_edf [] [], [2]) = Inr (e', [])
               \<and> grade_results e' = [gr] \<and> gr_grade gr = 10)"
proof -
  have contract: "randint_in_range (tape_random (\<lambda>seed. [2]))"
    by (rule tape_randint_in_range)
  have draw: "random_randint (tape_random (\<lambda>seed. [2])) (- 1) 1 [2] = (1, [])"
    by (simp add: tape_random_def tape_next_def)
  show ?thesis
    using contract
      predicted_grade_clamped [OF contract, of "\<lparr>sub_id = ''s'', sub_grade = 10\<rparr>" 0 0
        "reference_edf [] []" "[2]"]
    by (auto simp: draw reference_edf_def)
qed

lemma comparison_record_winner:
  "winner (snd (comparison_record R ts accuracy sub_a sub_b c s))
     = fst (winner_of R accuracy (fst (correct_winner_of R (sub_grade sub_a) (sub_grade sub_b) s))
              (snd (correct_winner_of R (sub_grade sub_a) (sub_grade sub_b) s)))"
  by (simp add: comparison_record_def Let_def)

text \<open>
  Claim C1. For the pair of submissions at indices \<open>i\<close> and \<open>j\<close> the body of the
  comparison loop appends one comparison. Its true winner is \<open>a\<close> if \<open>g_a > g_b\<close>, \<open>b\<close>
  if \<open>g_a < g_b\<close>, and the value of \<^verbatim>\<open>random.choice(["a", "b"])\<close> on a tie. Then
  \<open>r\<close> is the next value of \<^verbatim>\<open>random.random()\<close>; the winner recorded is the true
  winner exactly when \<open>r < accuracy\<close> and the other side otherwise. (That the choice is
  unbiased and \<open>r\<close> uniform is the library's contract; its ranges are used below.)
\<close>

theorem comparison_winner:
  assumes "i < length subs" and "j < length subs"
  shows "\<exists>e' s' cmp.
           comparison_body R ts accuracy subs i j (e, s, c) = Inr (e', s', Suc c)
           \<and> comparisons e' = comparisons e @ [cmp]
           \<and> submission_a cmp = sub_id (subs ! i) \<and> submission_b cmp = sub_id (subs ! j)
           \<and> (let g_a = sub_grade (subs ! i); g_b = sub_grade (subs ! j);
                   true_winner = (if g_a > g_b then ''a'' else if g_a < g_b then ''b''
                                  else fst (random_choice R [''a'', ''b''] s));
                   s1 = (if g_a = g_b then snd (random_choice R [''a'', ''b''] s) else s);
                   r = fst (random_random R s1)
               in (winner cmp = true_winner \<longleftrightarrow> r < accuracy)
                  \<and> (\<not> r < accuracy \<longrightarrow>
                        winner cmp = (if true_winner = ''a'' then ''b'' else ''a''))
                  \<and> (choice_in_list R \<longrightarrow>
                        true_winner \<in> {''a'', ''b''} \<and> winner cmp \<in> {''a'', ''b''})
                  \<and> (random_in_unit R \<longrightarrow> 0 \<le> r \<and> r < 1))"
proof -
  define g_a where "g_a = sub_grade (subs ! i)"
  define g_b where "g_b = sub_grade (subs ! j)"
  define true_winner where
    "true_winner = (if g_a > g_b then ''a'' else if g_a < g_b then ''b''
                    else fst (random_choice R [''a'', ''b''] s))"
  define s1 where "s1 = (if g_a = g_b then snd (random_choice R [''a'', ''b''] s) else s)"
  define r where "r = fst (random_random R s1)"
  define cmp where "cmp = snd (comparison_record R ts accuracy (subs ! i) (subs ! j) c s)"
  have cw: "correct_winner_of R g_a g_b s = (true_winner, s1)"
    by (auto simp: correct_winner_of_def true_winner_def s1_def Let_def)
  have w: "winner cmp = (if r < accuracy then true_winner
                         else if true_winner = ''a'' then ''b'' else ''a'')"
    unfolding cmp_def comparison_record_winner
    by (simp add: cw [unfolded g_a_def g_b_def] winner_of_def r_def case_prod_beta)
  have iff: "winner cmp = true_winner \<longleftrightarrow> r < accuracy"
    unfolding w by auto
  have flipped: "\<not> r < accuracy \<longrightarrow> winner cmp = (if true_winner = ''a'' then ''b'' else ''a'')"
    unfolding w by simp
  have sides: "choice_in_list R \<longrightarrow> true_winner \<in> {''a'', ''b''} \<and> winner cmp \<in> {''a'', ''b''}"
  proof
    assume "choice_in_list R"
    then have "fst (random_choice R [''a'', ''b''] s) \<in> set [''a'', ''b'']"
      unfolding choice_in_list_def by blast
    then have "true_winner \<in> {''a'', ''b''}"
      by (auto simp: true_winner_def)
    then show "true_winner \<in> {''a'', ''b''} \<and> winner cmp \<in> {''a'', ''b''}"
      unfolding w by auto
  qed
  have unit: "random_in_unit R \<longrightarrow> 0 \<le> r \<and> r < 1"
    by (simp add: random_in_unit_def r_def)
  have appended: "comparisons (add_comparison cmp
            (add_llm_call (fst (comparison_record R ts accuracy (subs ! i) (subs ! j) c s)) e))
          = comparisons e @ [cmp]"
    by (simp add: add_comparison_def add_llm_call_def)
  have parts: "submission_a cmp = sub_id (subs ! i) \<and> submission_b cmp = sub_id (subs ! j)"
    by (simp add: cmp_def comparison_record_participants)
  show ?thesis
    unfolding comparison_body_eq [OF assms] cmp_def [symmetric] Let_def
      g_a_def [symmetric] g_b_def [symmetric] true_winner_def [symmetric]
      s1_def [symmetric] r_def [symmetric]
    using appended parts iff flipped sides unit by blast
qed

theorem comparison_winner_witness:
  "\<exists>e' s' cmp.
     comparison_body (tape_random (\<lambda>seed. [])) 0 0.8 three_submissions 1 2
       (reference_edf [] [], [3, 90, 7], 0) = Inr (e', s', 1)
     \<and> comparisons e' = [cmp] \<and> winner cmp = ''a''"
proof -
  have "(3::nat) mod Suc (Suc 0) = Suc 0"
    by presburger
  then have c: "random_choice (tape_random (\<lambda>seed. [])) [''a'', ''b''] [3, 90, 7] = (''b'', [90, 7])"
    by (simp add: tape_random_def tape_next_def)
  have r: "random_random (tape_random (\<lambda>seed. [])) [90, 7] = (0.9, [7])"
    by (simp add: tape_random_def tape_next_def)
  have in_range: "1 < length three_submissions" "2 < length three_submissions"
    by (simp_all add: three_submissions_def)
  have tie: "sub_grade (three_submissions ! Suc 0) = 5" "sub_grade (three_submissions ! 2) = 5"
    by (simp_all add: three_submissions_def)
  from comparison_winner [OF in_range, of "tape_random (\<lambda>seed. [])" 0 "0.8"
        "reference_edf [] []" "[3, 90, 7]" 0]
  obtain e' s' cmp where
    "comparison_body (tape_random (\<lambda>seed. [])) 0 0.8 three_submissions 1 2
       (reference_edf [] [], [3, 90, 7], 0) = Inr (e', s', Suc 0)"
    and "comparisons e' = comparisons (reference_edf [] []) @ [cmp]"
    and "winner cmp = ''a''"
    by (auto simp: tie c r Let_def)
  then show ?thesis
    by (auto simp: reference_edf_def)
qed

section \<open>Call records\<close>

lemma grade_records_nth:
  assumes "k < length subs"
  shows "grade_records R ts i subs s ! k
           = (grade_call ts (i + k) (subs ! k),
              grade_result_of R ts (i + k) (subs ! k) (grade_state R s k))"
  using assms
proof (induction subs arbitrary: i s k)
  case Nil
  then show ?case by simp
next
  case (Cons sub subs)
  show ?case
  proof (cases k)
    case 0
    then show ?thesis by simp
  next
    case (Suc k')
    with Cons.prems have "k' < length subs" by simp
    from Cons.IH [OF this] show ?thesis
      by (simp add: Suc)
  qed
qed

lemma comparison_records_nth:
  assumes "k < length ps"
  shows "\<exists>s'. comparison_records R ts accuracy subs ps c s ! k
           = comparison_record R ts accuracy (subs ! fst (ps ! k)) (subs ! snd (ps ! k)) (c + k) s'"
  using assms
proof (induction ps arbitrary: c s k)
  case Nil
  then show ?case by simp
next
  case (Cons p ps)
  obtain i j where p: "p = (i, j)" by (cases p)
  show ?case
  proof (cases k)
    case 0
    then show ?thesis by (auto simp: p)
  next
    case (Suc k')
    with Cons.prems have "k' < length ps" by simp
    from Cons.IH [OF this, of "Suc c" "comparison_next R accuracy (subs ! i) (subs ! j) s"]
    show ?thesis
      by (simp add: Suc p)
  qed
qed

lemma comparison_record_call_ids:
  "cmp_call_ids (snd (comparison_record R ts accuracy sub_a sub_b c s))
     = [call_id (fst (comparison_record R ts accuracy sub_a sub_b c s))]"
  by (simp add: comparison_record_def Let_def)

lemma grade_result_of_fields:
  "gr_call_ids (grade_result_of R ts i sub s) = [call_id (grade_call ts i sub)]"
  "gr_submission_id (grade_result_of R ts i sub s) = sub_id sub"
  "gr_grade (grade_result_of R ts i sub s)
     = predicted_grade_of (sub_grade sub) (fst (random_randint R (- 1) 1 s))"
  "gr_graded_at (grade_result_of R ts i sub s) = ts + int i * 1000 + 500"
  "gr_grade_distribution (grade_result_of R ts i sub s)
     = dist_spec (predicted_grade_of (sub_grade sub) (fst (random_randint R (- 1) 1 s)))"
  by (simp_all add: grade_result_of_def Let_def)

lemma anchor_comparison_fields:
  "submission_a (anchor_comparison ts i sub) = sub_id sub"
  "submission_b (anchor_comparison ts i sub) = ''external_anchor_exemplar''"
  "winner (anchor_comparison ts i sub) = ''a''"
  "confidence (anchor_comparison ts i sub) = 0.85"
  "cmp_call_ids (anchor_comparison ts i sub) = [call_id (anchor_call ts i sub)]"
  by (simp_all add: anchor_comparison_def)

lemma run_Inr_length:
  assumes "create_egf_with_comparisons R now subs edf_path output_path accuracy seed description
             = Inr e"
  shows "3 \<le> length subs"
proof (rule ccontr)
  assume "\<not> 3 \<le> length subs"
  then have "length subs < 3" by simp
  with assms show False by (simp add: run_fails)
qed

lemma run_Inr_fields:
  assumes "create_egf_with_comparisons R now subs edf_path output_path accuracy seed description
             = Inr e"
  shows "llm_calls e = map fst (run_grades R now subs seed)
                    @ map fst (run_comparisons R now subs accuracy seed)
                    @ map (\<lambda>i. anchor_call now i (subs ! i)) [0, 1, 2]"
    and "grade_results e = map snd (run_grades R now subs seed)"
    and "comparisons e = map snd (run_comparisons R now subs accuracy seed)
                    @ map (\<lambda>i. anchor_comparison now i (subs ! i)) [0, 1, 2]"
  using assms run_ok [OF run_Inr_length [OF assms], of R now edf_path output_path accuracy seed description]
  by auto

lemma length_run_grades [simp]: "length (run_grades R now subs seed) = length subs"
  by (simp add: run_grades_def)

lemma length_run_comparisons [simp]:
  "length (run_comparisons R now subs accuracy seed) = length (pair_indices (length subs))"
  by (simp add: run_comparisons_def)

lemma nth_3_cases:
  assumes "k < (3::nat)"
  shows "k = 0 \<or> k = 1 \<or> k = 2"
  using assms by arith

section \<open>Formats are injective\<close>

lemma digit_value_digit:
  assumes "d < 10"
  shows "digit_value (''0123456789'' ! d) = d"
proof -
  have "\<forall>k \<in> {..<10::nat}. digit_value (''0123456789'' ! k) = k"
    by (simp add: lessThan_nat_numeral lessThan_Suc digit_value_def)
  with assms show ?thesis
    by simp
qed

lemma nat_of_digits_snoc: "nat_of_digits (ds @ [ch]) = 10 * nat_of_digits ds + digit_value ch"
  by (simp add: nat_of_digits_def)

lemma nat_of_digits_str_nat: "nat_of_digits (str_nat n) = n"
proof (induction n rule: str_nat.induct)
  case (1 n)
  show ?case
  proof (cases "n < 10")
    case True
    then show ?thesis
      by (subst str_nat.simps) (simp add: nat_of_digits_def digit_value_digit)
  next
    case False
    then have "nat_of_digits (str_nat (n div 10)) = n div 10"
      by (rule "1.IH")
    with False show ?thesis
      by (subst str_nat.simps) (simp add: nat_of_digits_snoc digit_value_digit)
  qed
qed

lemma str_nat_inj: "str_nat m = str_nat n \<Longrightarrow> m = n"
  by (metis nat_of_digits_str_nat)

lemma nat_of_digits_zeros: "nat_of_digits (replicate k CHR ''0'' @ ds) = nat_of_digits ds"
proof -
  have "foldl (\<lambda>acc ch. 10 * acc + digit_value ch) 0 (replicate k CHR ''0'') = 0"
    by (induction k) (simp_all add: digit_value_def)
  then show ?thesis
    by (simp add: nat_of_digits_def)
qed

lemma nat_of_digits_fmt_03d: "nat_of_digits (fmt_03d i) = i"
  by (simp add: fmt_03d_def nat_of_digits_zeros nat_of_digits_str_nat)

lemma fmt_03d_inj: "fmt_03d i = fmt_03d j \<Longrightarrow> i = j"
  by (metis nat_of_digits_fmt_03d)

lemma str_nat_digits: "set (str_nat n) \<subseteq> set ''0123456789''"
proof (induction n rule: str_nat.induct)
  case (1 n)
  show ?case
  proof (cases "n < 10")
    case True
    then have "''0123456789'' ! n \<in> set ''0123456789''"
      by (intro nth_mem) simp
    with True show ?thesis
      by (subst str_nat.simps) simp
  next
    case False
    then have IH: "set (str_nat (n div 10)) \<subseteq> set ''0123456789''"
      by (rule "1.IH")
    have "''0123456789'' ! (n mod 10) \<in> set ''0123456789''"
      by (intro nth_mem) simp
    with False IH show ?thesis
      by (subst str_nat.simps) simp
  qed
qed

lemma str_int_inj: "str_int a = str_int b \<Longrightarrow> a = b"
proof -
  assume eq: "str_int a = str_int b"
  have no_minus: "CHR ''-'' # xs \<noteq> str_nat n" for xs n
  proof
    assume "CHR ''-'' # xs = str_nat n"
    then have "CHR ''-'' \<in> set (str_nat n)"
      by (metis list.set_intros(1))
    with str_nat_digits [of n] show False
      by auto
  qed
  show "a = b"
  proof (cases "a < 0"; cases "b < 0")
    assume "a < 0" "b < 0"
    with eq have "nat (- a) = nat (- b)"
      by (simp add: str_int_def str_nat_inj)
    with \<open>a < 0\<close> \<open>b < 0\<close> show ?thesis by simp
  next
    assume "a < 0" "\<not> b < 0"
    with eq no_minus show ?thesis
      by (simp add: str_int_def)
  next
    assume "\<not> a < 0" "b < 0"
    with eq no_minus [of _ "nat a"] show ?thesis
      by (simp add: str_int_def) metis
  next
    assume "\<not> a < 0" "\<not> b < 0"
    with eq have "nat a = nat b"
      by (simp add: str_int_def str_nat_inj)
    with \<open>\<not> a < 0\<close> \<open>\<not> b < 0\<close> show ?thesis by simp
  qed
qed

section \<open>One call record per result\<close>

lemma upt_add_Suc: "[i ..< i + Suc n] = i # [Suc i ..< Suc i + n]"
proof -
  have "[i ..< i + Suc n] = i # [Suc i ..< i + Suc n]"
    by (rule upt_conv_Cons) simp
  moreover have "i + Suc n = Suc i + n"
    by simp
  ultimately show ?thesis
    by (simp only:)
qed

lemma grade_call_ids:
  "map call_id (map fst (grade_records R ts i subs s))
     = map (\<lambda>k. ''grade_call_'' @ fmt_03d k) [i ..< i + length subs]"
proof (induction subs arbitrary: i s)
  case Nil
  show ?case by simp
next
  case (Cons sub subs)
  have "[i ..< i + length (sub # subs)] = i # [Suc i ..< Suc i + length subs]"
    unfolding length_Cons by (rule upt_add_Suc)
  then show ?case
    unfolding grade_records.simps list.map fst_conv Cons.IH
    by (simp add: grade_call_def)
qed

lemma comparison_record_call_id:
  "call_id (fst (comparison_record R ts accuracy sub_a sub_b c s)) = ''comp_call_'' @ fmt_03d c"
  by (simp add: comparison_record_def comparison_call_def Let_def)

lemma comparison_call_ids:
  "map call_id (map fst (comparison_records R ts accuracy subs ps c s))
     = map (\<lambda>k. ''comp_call_'' @ fmt_03d k) [c ..< c + length ps]"
proof (induction ps arbitrary: c s)
  case Nil
  show ?case by simp
next
  case (Cons p ps)
  obtain i j where p: "p = (i, j)" by (cases p)
  have "[c ..< c + length (p # ps)] = c # [Suc c ..< Suc c + length ps]"
    unfolding length_Cons by (rule upt_add_Suc)
  then show ?case
    unfolding p comparison_records.simps list.map fst_conv Cons.IH
    by (simp add: comparison_record_call_id)
qed

lemma distinct_prefixed:
  "distinct (map (\<lambda>k. prefix @ fmt_03d k) [a ..< b])"
  by (auto simp: distinct_map inj_on_def dest: fmt_03d_inj)

lemma run_call_ids_distinct:
  "distinct (map call_id (map fst (run_grades R now subs seed))
      @ map call_id (map fst (run_comparisons R now subs accuracy seed))
      @ map call_id (map (\<lambda>i. anchor_call now i (subs ! i)) [0, 1, 2]))"
proof -
  define gs where "gs = map (\<lambda>k. ''grade_call_'' @ fmt_03d k) [0 ..< 0 + length subs]"
  define cs where
    "cs = map (\<lambda>k. ''comp_call_'' @ fmt_03d k) [0 ..< 0 + length (pair_indices (length subs))]"
  define xs where "xs = map (\<lambda>k. ''ext_comp_call_'' @ fmt_03d k) [0 ..< 3]"
  have anchors: "map call_id (map (\<lambda>i. anchor_call now i (subs ! i)) [0, 1, 2]) = xs"
    by (simp add: anchor_call_def upt_3 xs_def)
  have "distinct gs" "distinct cs" "distinct xs"
    unfolding gs_def cs_def xs_def by (rule distinct_prefixed)+
  moreover have "set gs \<inter> set cs = {}" "set gs \<inter> set xs = {}" "set cs \<inter> set xs = {}"
    unfolding gs_def cs_def xs_def by auto
  ultimately have "distinct (gs @ cs @ xs)"
    by auto
  then show ?thesis
    unfolding run_grades_def run_comparisons_def grade_call_ids comparison_call_ids anchors
      length_comparison_records gs_def [symmetric] cs_def [symmetric] .
qed

lemma completed_run_call_records:
  assumes "create_egf_with_comparisons R now subs edf_path output_path accuracy seed description
             = Inr e"
  shows "3 \<le> length subs
         \<and> length (grade_results e) = length subs
         \<and> length (comparisons e) = (2 * length subs - 3) + 3
         \<and> length (llm_calls e) = length (grade_results e) + length (comparisons e)
         \<and> length (llm_calls e) = length subs + (2 * length subs - 3) + 3
         \<and> (\<forall>k < length (grade_results e).
               gr_call_ids (grade_results e ! k) = [call_id (llm_calls e ! k)])
         \<and> (\<forall>k < length (comparisons e).
               cmp_call_ids (comparisons e ! k) = [call_id (llm_calls e ! (length subs + k))])
         \<and> distinct (map call_id (llm_calls e))"
proof -
  note n3 = run_Inr_length [OF assms]
  note fields = run_Inr_fields [OF assms]
  define G where "G = run_grades R now subs seed"
  define C where "C = run_comparisons R now subs accuracy seed"
  define m where "m = length (pair_indices (length subs))"
  have lenG: "length G = length subs" by (simp add: G_def)
  have lenC: "length C = m" by (simp add: C_def m_def)
  have m: "m = 2 * length subs - 3"
    using n3 by (simp add: m_def length_pair_indices)
  have grades: "gr_call_ids (grade_results e ! k) = [call_id (llm_calls e ! k)]"
    if "k < length subs" for k
  proof -
    have "G ! k = (grade_call now k (subs ! k),
                   grade_result_of R now k (subs ! k) (grade_state R (random_seed R seed) k))"
      using grade_records_nth [OF that, of R now 0 "random_seed R seed"]
      by (simp add: G_def run_grades_def)
    then show ?thesis
      using that by (simp add: fields G_def [symmetric] C_def [symmetric] lenG nth_append
          grade_result_of_fields)
  qed
  have comps: "cmp_call_ids (comparisons e ! k) = [call_id (llm_calls e ! (length subs + k))]"
    if "k < m + 3" for k
  proof (cases "k < m")
    case True
    then have "k < length (pair_indices (length subs))" by (simp add: m_def)
    from comparison_records_nth [OF this, of R now accuracy subs 0
        "grade_final R subs (random_seed R seed)"] obtain s' where
      "C ! k = comparison_record R now accuracy
                 (subs ! fst (pair_indices (length subs) ! k))
                 (subs ! snd (pair_indices (length subs) ! k)) k s'"
      unfolding C_def run_comparisons_def by fastforce
    then show ?thesis
      using True by (simp add: fields G_def [symmetric] C_def [symmetric] lenG lenC nth_append
          comparison_record_call_ids)
  next
    case False
    with that have "k - m < 3" by simp
    then have "k - m = 0 \<or> k - m = 1 \<or> k - m = 2" by (rule nth_3_cases)
    moreover from False have "length subs + k - (length subs + m) = k - m" by simp
    ultimately show ?thesis
      using False by (auto simp: fields G_def [symmetric] C_def [symmetric] lenG lenC nth_append
          anchor_comparison_fields)
  qed
  have "length (grade_results e) = length subs"
    by (simp add: fields)
  moreover have "length (comparisons e) = m + 3"
    by (simp add: fields m_def)
  moreover have "length (llm_calls e) = length subs + m + 3"
    by (simp add: fields m_def)
  moreover have "distinct (map call_id (llm_calls e))"
    unfolding fields(1) G_def [symmetric] C_def [symmetric]
    using run_call_ids_distinct [of R now subs seed accuracy]
    by (simp add: G_def C_def)
  ultimately show ?thesis
    using n3 grades comps unfolding m by simp
qed

lemma comparison_record_ids:
  "comparison_id (snd (comparison_record R ts accuracy sub_a sub_b c s)) = ''comp_'' @ fmt_03d c"
  by (simp add: comparison_record_def Let_def)

lemma anchor_record_ids:
  "comparison_id (anchor_comparison ts i sub) = ''ext_comp_'' @ fmt_03d i"
  "call_id (anchor_call ts i sub) = ''ext_comp_call_'' @ fmt_03d i"
  by (simp_all add: anchor_comparison_def anchor_call_def)

text \<open>
  Claim C8. A run on \<open>n \<ge> 3\<close> submissions returns the artifact, and in it there is one
  call record per grade result and per comparison, anchor comparisons included: \<open>n\<close> grade
  results, \<open>(2n - 3) + 3\<close> comparisons and \<open>n + (2n - 3) + 3\<close> call records. The \<open>k\<close>-th
  call record is the grading call of the \<open>k\<close>-th submission and the call list of the
  \<open>k\<close>-th grade result, the one of that submission, holds exactly its identifier. The
  call list of the \<open>k\<close>-th comparison holds exactly the identifier of call record
  \<open>n + k\<close>, which carries the same counter as the comparison. No two call records share
  an identifier, so each result names one call record, its own.
\<close>

theorem one_call_record_per_result:
  assumes "3 \<le> length subs"
  shows "\<exists>e. create_egf_with_comparisons R now subs edf_path output_path accuracy seed
                description = Inr e
          \<and> length (grade_results e) = length subs
          \<and> length (comparisons e) = (2 * length subs - 3) + 3
          \<and> length (llm_calls e) = length (grade_results e) + length (comparisons e)
          \<and> length (llm_calls e) = length subs + (2 * length subs - 3) + 3
          \<and> (\<forall>k < length subs.
                llm_calls e ! k = grade_call now k (subs ! k)
                \<and> gr_submission_id (grade_results e ! k) = sub_id (subs ! k)
                \<and> gr_call_ids (grade_results e ! k) = [call_id (llm_calls e ! k)])
          \<and> (\<forall>k < (2 * length subs - 3) + 3.
                cmp_call_ids (comparisons e ! k) = [call_id (llm_calls e ! (length subs + k))])
          \<and> (\<forall>k < 2 * length subs - 3.
                comparison_id (comparisons e ! k) = ''comp_'' @ fmt_03d k
                \<and> call_id (llm_calls e ! (length subs + k)) = ''comp_call_'' @ fmt_03d k)
          \<and> (\<forall>k < 3.
                comparison_id (comparisons e ! (2 * length subs - 3 + k))
                  = ''ext_comp_'' @ fmt_03d k
                \<and> call_id (llm_calls e ! (length subs + (2 * length subs - 3) + k))
                  = ''ext_comp_call_'' @ fmt_03d k)
          \<and> distinct (map call_id (llm_calls e))"
proof -
  from run_ok [OF assms] obtain e where
    run: "create_egf_with_comparisons R now subs edf_path output_path accuracy seed
            description = Inr e"
    by blast
  note counted = completed_run_call_records [OF run]
  note fields = run_Inr_fields [OF run]
  define G where "G = run_grades R now subs seed"
  define C where "C = run_comparisons R now subs accuracy seed"
  define m where "m = 2 * length subs - 3"
  have lenG: "length G = length subs" by (simp add: G_def)
  have lenC: "length C = m"
    using assms by (simp add: C_def m_def length_pair_indices)
  have graded: "llm_calls e ! k = grade_call now k (subs ! k)
                \<and> gr_submission_id (grade_results e ! k) = sub_id (subs ! k)
                \<and> gr_call_ids (grade_results e ! k) = [call_id (llm_calls e ! k)]"
    if "k < length subs" for k
  proof -
    have "G ! k = (grade_call now k (subs ! k),
                   grade_result_of R now k (subs ! k) (grade_state R (random_seed R seed) k))"
      using grade_records_nth [OF that, of R now 0 "random_seed R seed"]
      by (simp add: G_def run_grades_def)
    then show ?thesis
      using that by (simp add: fields G_def [symmetric] C_def [symmetric] lenG nth_append
          grade_result_of_fields)
  qed
  have compared: "comparison_id (comparisons e ! k) = ''comp_'' @ fmt_03d k
                  \<and> call_id (llm_calls e ! (length subs + k)) = ''comp_call_'' @ fmt_03d k"
    if "k < m" for k
  proof -
    from that assms have "k < length (pair_indices (length subs))"
      by (simp add: m_def length_pair_indices)
    from comparison_records_nth [OF this, of R now accuracy subs 0
        "grade_final R subs (random_seed R seed)"] obtain s' where
      "C ! k = comparison_record R now accuracy
                 (subs ! fst (pair_indices (length subs) ! k))
                 (subs ! snd (pair_indices (length subs) ! k)) k s'"
      unfolding C_def run_comparisons_def by fastforce
    then show ?thesis
      using that by (simp add: fields G_def [symmetric] C_def [symmetric] lenG lenC nth_append
          comparison_record_ids comparison_record_call_id)
  qed
  have anchored: "comparison_id (comparisons e ! (m + k)) = ''ext_comp_'' @ fmt_03d k
                  \<and> call_id (llm_calls e ! (length subs + m + k)) = ''ext_comp_call_'' @ fmt_03d k"
    if "k < 3" for k
  proof -
    have "length subs + m + k - length subs - m = k" by simp
    with nth_3_cases [OF that] show ?thesis
      by (auto simp: fields G_def [symmetric] C_def [symmetric] lenG lenC nth_append
          anchor_record_ids)
  qed
  show ?thesis
    using run counted graded compared anchored unfolding m_def
    by (intro exI [of _ e]) (simp add: add.assoc)
qed

theorem one_call_record_per_result_witness:
  "\<exists>e. create_egf_with_comparisons (tape_random (\<lambda>seed. [])) 0 four_submissions
          ''in.edf'' ''out.egf'' 0.8 42 ''d'' = Inr e
       \<and> length (grade_results e) = 4 \<and> length (comparisons e) = 8 \<and> length (llm_calls e) = 12
       \<and> gr_submission_id (grade_results e ! 3) = ''s4''
       \<and> gr_call_ids (grade_results e ! 3) = [call_id (llm_calls e ! 3)]
       \<and> cmp_call_ids (comparisons e ! 7) = [call_id (llm_calls e ! 11)]
       \<and> comparison_id (comparisons e ! 4) = ''comp_004''
       \<and> call_id (llm_calls e ! 8) = ''comp_call_004''
       \<and> comparison_id (comparisons e ! 7) = ''ext_comp_002''
       \<and> call_id (llm_calls e ! 11) = ''ext_comp_call_002''
       \<and> distinct (map call_id (llm_calls e))"
proof -
  have n: "3 \<le> length four_submissions" "length four_submissions = 4"
    "sub_id (four_submissions ! 3) = ''s4''"
    by (simp_all add: four_submissions_def)
  have fmt: "fmt_03d 4 = ''004''" "fmt_03d 2 = ''002''"
    by (simp_all add: fmt_03d_def str_nat.simps numeral_2_eq_2)
  from one_call_record_per_result [OF n(1), of "tape_random (\<lambda>seed. [])" 0 "''in.edf''"
      "''out.egf''" "0.8" 42 "''d''", unfolded n(2)]
  obtain e where
    run: "create_egf_with_comparisons (tape_random (\<lambda>seed. [])) 0 four_submissions
            ''in.edf'' ''out.egf'' 0.8 42 ''d'' = Inr e"
    and lens: "length (grade_results e) = 4" "length (comparisons e) = (2 * 4 - 3) + 3"
      "length (llm_calls e) = 4 + (2 * 4 - 3) + 3"
    and graded: "\<forall>k < 4. llm_calls e ! k = grade_call 0 k (four_submissions ! k)
                \<and> gr_submission_id (grade_results e ! k) = sub_id (four_submissions ! k)
                \<and> gr_call_ids (grade_results e ! k) = [call_id (llm_calls e ! k)]"
    and listed: "\<forall>k < (2 * 4 - 3) + 3.
                cmp_call_ids (comparisons e ! k) = [call_id (llm_calls e ! (4 + k))]"
    and compared: "\<forall>k < 2 * 4 - 3.
                comparison_id (comparisons e ! k) = ''comp_'' @ fmt_03d k
                \<and> call_id (llm_calls e ! (4 + k)) = ''comp_call_'' @ fmt_03d k"
    and anchored: "\<forall>k < 3.
                comparison_id (comparisons e ! (2 * 4 - 3 + k)) = ''ext_comp_'' @ fmt_03d k
                \<and> call_id (llm_calls e ! (4 + (2 * 4 - 3) + k)) = ''ext_comp_call_'' @ fmt_03d k"
    and ids: "distinct (map call_id (llm_calls e))"
    by blast
  from graded [rule_format, of 3] listed [rule_format, of 7] compared [rule_format, of 4]
    anchored [rule_format, of 2] run lens ids
  show ?thesis
    by (simp add: n(3) fmt)
qed

section \<open>Anchor comparisons\<close>

lemma run_comparisons_participants:
  assumes "k < length (pair_indices (length subs))"
  shows "submission_a (snd (run_comparisons R now subs accuracy seed ! k)) \<in> sub_id ` set subs
         \<and> submission_b (snd (run_comparisons R now subs accuracy seed ! k)) \<in> sub_id ` set subs"
proof -
  obtain i j where ij: "pair_indices (length subs) ! k = (i, j)"
    by (cases "pair_indices (length subs) ! k")
  with assms have "(i, j) \<in> set (pair_indices (length subs))"
    by (metis nth_mem)
  then have range: "i < length subs" "j < length subs"
    using pair_indices_in_range by blast+
  from comparison_records_nth [OF assms, of R now accuracy subs 0
      "grade_final R subs (random_seed R seed)"]
  obtain s' where "run_comparisons R now subs accuracy seed ! k
      = comparison_record R now accuracy (subs ! i) (subs ! j) k s'"
    by (auto simp: run_comparisons_def ij)
  with range show ?thesis
    by (simp add: comparison_record_participants)
qed

text \<open>
  What the routine guarantees about anchor comparisons, for every submission set. In the
  artifact of a completed run the comparisons are the non-anchor ones followed by three
  anchor comparisons. The \<open>k\<close>-th anchor comparison has the \<open>k\<close>-th submission as first
  participant, the fixed identifier \<^verbatim>\<open>external_anchor_exemplar\<close> as second participant,
  winner \<open>a\<close> and confidence 0.85, whatever the generator. Both participants of every
  non-anchor comparison are identifiers of the submission set. When no submission carries
  the sentinel identifier, the anchor comparisons are exactly the comparisons whose second
  participant is absent from the set.
\<close>

theorem anchor_comparisons:
  assumes "create_egf_with_comparisons R now subs edf_path output_path accuracy seed description
             = Inr e"
  shows "length (comparisons e) = length (pair_indices (length subs)) + 3
         \<and> (\<forall>k<3. submission_a (comparisons e ! (length (pair_indices (length subs)) + k))
                      = sub_id (subs ! k)
                  \<and> submission_b (comparisons e ! (length (pair_indices (length subs)) + k))
                      = ''external_anchor_exemplar''
                  \<and> winner (comparisons e ! (length (pair_indices (length subs)) + k)) = ''a''
                  \<and> confidence (comparisons e ! (length (pair_indices (length subs)) + k))
                      = 0.85)
         \<and> (\<forall>k < length (pair_indices (length subs)).
               submission_a (comparisons e ! k) \<in> sub_id ` set subs
               \<and> submission_b (comparisons e ! k) \<in> sub_id ` set subs)
         \<and> (''external_anchor_exemplar'' \<notin> sub_id ` set subs \<longrightarrow>
               (\<forall>k < length (comparisons e).
                  submission_b (comparisons e ! k) \<notin> sub_id ` set subs
                    \<longleftrightarrow> length (pair_indices (length subs)) \<le> k))"
proof -
  note fields = run_Inr_fields [OF assms]
  define C where "C = run_comparisons R now subs accuracy seed"
  define m where "m = length (pair_indices (length subs))"
  have lenC: "length C = m"
    by (simp add: C_def m_def)
  have len: "length (comparisons e) = m + 3"
    by (simp add: fields lenC C_def [symmetric])
  have anchors: "submission_a (comparisons e ! (m + k)) = sub_id (subs ! k)
                 \<and> submission_b (comparisons e ! (m + k)) = ''external_anchor_exemplar''
                 \<and> winner (comparisons e ! (m + k)) = ''a''
                 \<and> confidence (comparisons e ! (m + k)) = 0.85"
    if "k < 3" for k
    using nth_3_cases [OF that]
    by (auto simp: fields C_def [symmetric] lenC nth_append anchor_comparison_fields)
  have inner: "submission_a (comparisons e ! k) \<in> sub_id ` set subs
               \<and> submission_b (comparisons e ! k) \<in> sub_id ` set subs"
    if "k < m" for k
    using that run_comparisons_participants [of k subs R now accuracy seed]
    by (simp add: fields C_def [symmetric] lenC nth_append m_def)
  have exclusion: "submission_b (comparisons e ! k) \<notin> sub_id ` set subs \<longleftrightarrow> m \<le> k"
    if absent: "''external_anchor_exemplar'' \<notin> sub_id ` set subs" and k: "k < length (comparisons e)"
    for k
  proof (cases "k < m")
    case True
    with inner [OF True] show ?thesis by simp
  next
    case False
    with k len have "k - m < 3" by simp
    from anchors [OF this] False absent show ?thesis by simp
  qed
  show ?thesis
    using len anchors inner exclusion unfolding m_def by blast
qed

theorem anchor_comparisons_witness:
  "\<exists>e. create_egf_with_comparisons (tape_random (\<lambda>seed. [])) 0 three_submissions
          ''in.edf'' ''out.egf'' 0.8 42 ''d'' = Inr e
       \<and> length (comparisons e) = 6
       \<and> submission_a (comparisons e ! 5) = ''s3''
       \<and> submission_b (comparisons e ! 5) = ''external_anchor_exemplar''
       \<and> confidence (comparisons e ! 5) = 0.85
       \<and> submission_b (comparisons e ! 5) \<notin> sub_id ` set three_submissions
       \<and> submission_b (comparisons e ! 2) \<in> sub_id ` set three_submissions"
proof -
  have "3 \<le> length three_submissions"
    by (simp add: three_submissions_def)
  from run_ok [OF this] obtain e where
    run: "create_egf_with_comparisons (tape_random (\<lambda>seed. [])) 0 three_submissions
            ''in.edf'' ''out.egf'' 0.8 42 ''d'' = Inr e"
    by blast
  have n: "length three_submissions = 3" "length (pair_indices 3) = 3"
    by (simp_all add: three_submissions_def length_pair_indices)
  have ids: "sub_id ` set three_submissions = {''s1'', ''s2'', ''s3''}"
    "three_submissions ! 2 = \<lparr>sub_id = ''s3'', sub_grade = 5\<rparr>"
    by (simp_all add: three_submissions_def)
  note all = anchor_comparisons [OF run, unfolded n]
  note len = all [THEN conjunct1]
  note last_anchor = all [THEN conjunct2, THEN conjunct1, rule_format, of 2]
  note inner = all [THEN conjunct2, THEN conjunct2, THEN conjunct1, rule_format, of 2]
  from len last_anchor inner run show ?thesis
    by (simp add: ids)
qed

text \<open>
  Claim C7 says that the second participant of every anchor comparison is a sentinel
  absent from the source submission set, and the comment of line 164 says the same
  (\<^verbatim>\<open>External - not in EDF\<close>). The routine has no guard for it: on a submission set
  whose first submission carries the identifier \<^verbatim>\<open>external_anchor_exemplar\<close> the run
  completes, and the second participant of the first anchor comparison is the identifier of
  a submission of the set.
\<close>

theorem anchor_in_submission_set:
  "\<exists>e. create_egf_with_comparisons (tape_random (\<lambda>seed. [])) 0 anchored_submissions
          ''in.edf'' ''out.egf'' 0.8 42 ''d'' = Inr e
       \<and> comparison_id (comparisons e ! 3) = ''ext_comp_000''
       \<and> submission_b (comparisons e ! 3) \<in> sub_id ` set anchored_submissions"
proof -
  have n: "3 \<le> length anchored_submissions" "length (pair_indices (length anchored_submissions)) = 3"
    by (simp_all add: anchored_submissions_def length_pair_indices)
  from run_ok [OF n(1)] obtain e where
    run: "create_egf_with_comparisons (tape_random (\<lambda>seed. [])) 0 anchored_submissions
            ''in.edf'' ''out.egf'' 0.8 42 ''d'' = Inr e"
    by blast
  have "comparisons e ! 3 = anchor_comparison 0 0 (anchored_submissions ! 0)"
    by (simp add: run_Inr_fields [OF run] nth_append n(2))
  then have "comparison_id (comparisons e ! 3) = ''ext_comp_000''"
    and "submission_b (comparisons e ! 3) \<in> sub_id ` set anchored_submissions"
    by (simp_all add: anchor_comparison_def anchored_submissions_def fmt_03d_def str_nat.simps
        numeral_2_eq_2)
  with run show ?thesis
    by blast
qed

section \<open>The text of the grading call\<close>

lemma run_grade_record:
  assumes "create_egf_with_comparisons R now subs edf_path output_path accuracy seed description
             = Inr e"
    and "k < length subs"
  shows "llm_calls e ! k = grade_call now k (subs ! k)"
    and "grade_results e ! k
           = grade_result_of R now k (subs ! k) (grade_state R (random_seed R seed) k)"
proof -
  have "run_grades R now subs seed ! k
          = (grade_call now k (subs ! k),
             grade_result_of R now k (subs ! k) (grade_state R (random_seed R seed) k))"
    using grade_records_nth [OF assms(2), of R now 0 "random_seed R seed"]
    by (simp add: run_grades_def)
  with assms(2) show "llm_calls e ! k = grade_call now k (subs ! k)"
    and "grade_results e ! k
           = grade_result_of R now k (subs ! k) (grade_state R (random_seed R seed) k)"
    by (simp_all add: run_Inr_fields [OF assms(1)] nth_append)
qed

text \<open>
  Claim C10, as the routine implements it. In the artifact of a completed run the output
  text of the \<open>k\<close>-th call record is \<^verbatim>\<open>Grade: \<close> followed by the ground-truth grade of
  the \<open>k\<close>-th submission, for every \<open>k\<close>, while the \<open>k\<close>-th grade result holds the
  predicted grade \<open>max 0 (min 10 (g + noise))\<close>. Whenever the noise drawn is nonzero and
  \<open>g + noise\<close> stays within \<open>0..10\<close>, the predicted grade differs from \<open>g\<close> and the text
  is not the one that would state the predicted grade.
\<close>

theorem grading_call_states_ground_truth:
  assumes "create_egf_with_comparisons R now subs edf_path output_path accuracy seed description
             = Inr e"
    and "k < length subs"
  shows "output_content (llm_calls e ! k)
           = ''Grade: '' @ str_int (sub_grade (subs ! k))
               @ ''\<newline>\<newline>Justification: The submission demonstrates...''
         \<and> gr_submission_id (grade_results e ! k) = sub_id (subs ! k)
         \<and> (let g = sub_grade (subs ! k);
                 noise = fst (random_randint R (- 1) 1 (grade_state R (random_seed R seed) k));
                 p = gr_grade (grade_results e ! k)
             in p = max 0 (min 10 (g + noise))
                \<and> (noise \<noteq> 0 \<and> 0 \<le> g + noise \<and> g + noise \<le> 10 \<longrightarrow>
                      p \<noteq> g
                      \<and> output_content (llm_calls e ! k)
                          \<noteq> ''Grade: '' @ str_int p
                              @ ''\<newline>\<newline>Justification: The submission demonstrates...''))"
proof -
  define g where "g = sub_grade (subs ! k)"
  define noise where
    "noise = fst (random_randint R (- 1) 1 (grade_state R (random_seed R seed) k))"
  define p where "p = gr_grade (grade_results e ! k)"
  note rec = run_grade_record [OF assms]
  have stated: "output_content (llm_calls e ! k)
                = ''Grade: '' @ str_int g
                    @ ''\<newline>\<newline>Justification: The submission demonstrates...''"
    unfolding rec(1) g_def by (simp add: grade_call_def)
  have owner: "gr_submission_id (grade_results e ! k) = sub_id (subs ! k)"
    unfolding rec(2) by (simp add: grade_result_of_fields)
  have p: "p = max 0 (min 10 (g + noise))"
    unfolding p_def rec(2) g_def noise_def
    by (simp add: grade_result_of_fields predicted_grade_of_def)
  have differs: "p \<noteq> g
      \<and> output_content (llm_calls e ! k)
          \<noteq> ''Grade: '' @ str_int p @ ''\<newline>\<newline>Justification: The submission demonstrates...''"
    if "noise \<noteq> 0" "0 \<le> g + noise" "g + noise \<le> 10"
  proof -
    from that have "p \<noteq> g"
      unfolding p by simp
    moreover from this have "str_int g \<noteq> str_int p"
      using str_int_inj by blast
    ultimately show ?thesis
      unfolding stated by simp
  qed
  show ?thesis
    unfolding Let_def g_def [symmetric] noise_def [symmetric] p_def [symmetric]
    using stated owner p differs by blast
qed

theorem grading_call_states_ground_truth_witness:
  "\<exists>e. create_egf_with_comparisons (tape_random (\<lambda>seed. [2])) 0 three_submissions
          ''in.edf'' ''out.egf'' 0.8 42 ''d'' = Inr e
       \<and> output_content (llm_calls e ! 0)
           = ''Grade: 3\<newline>\<newline>Justification: The submission demonstrates...''
       \<and> gr_grade (grade_results e ! 0) = 4"
proof -
  have n: "3 \<le> length three_submissions" "0 < length three_submissions"
    by (simp_all add: three_submissions_def)
  from run_ok [OF n(1)] obtain e where
    run: "create_egf_with_comparisons (tape_random (\<lambda>seed. [2])) 0 three_submissions
            ''in.edf'' ''out.egf'' 0.8 42 ''d'' = Inr e"
    by blast
  have first: "sub_grade (three_submissions ! 0) = 3"
    by (simp add: three_submissions_def)
  have draw: "fst (random_randint (tape_random (\<lambda>seed. [2])) (- 1) 1
                (grade_state (tape_random (\<lambda>seed. [2])) (random_seed (tape_random (\<lambda>seed. [2])) 42) 0))
              = 1"
    by (simp add: tape_random_def tape_next_def)
  have three: "str_int 3 = ''3''"
    by (simp add: str_int_def str_nat.simps)
  from grading_call_states_ground_truth [OF run n(2)] run show ?thesis
    unfolding first draw Let_def three by auto
qed

text \<open>
  A nonzero noise does not always separate the two grades: for a ground-truth grade 0 and
  a noise of \<open>-1\<close> the clamp gives the predicted grade 0, the grade the text states.
\<close>

theorem clamped_noise_leaves_grade:
  "\<exists>e. create_egf_with_comparisons (tape_random (\<lambda>seed. [0])) 0 boundary_submissions
          ''in.edf'' ''out.egf'' 0.8 42 ''d'' = Inr e
       \<and> fst (random_randint (tape_random (\<lambda>seed. [0])) (- 1) 1
                (random_seed (tape_random (\<lambda>seed. [0])) 42)) = - 1
       \<and> gr_grade (grade_results e ! 0) = 0
       \<and> output_content (llm_calls e ! 0)
           = ''Grade: '' @ str_int (gr_grade (grade_results e ! 0))
               @ ''\<newline>\<newline>Justification: The submission demonstrates...''"
proof -
  have n: "3 \<le> length boundary_submissions" "0 < length boundary_submissions"
    by (simp_all add: boundary_submissions_def)
  from run_ok [OF n(1)] obtain e where
    run: "create_egf_with_comparisons (tape_random (\<lambda>seed. [0])) 0 boundary_submissions
            ''in.edf'' ''out.egf'' 0.8 42 ''d'' = Inr e"
    by blast
  have draw: "fst (random_randint (tape_random (\<lambda>seed. [0])) (- 1) 1
                (random_seed (tape_random (\<lambda>seed. [0])) 42)) = - 1"
    by (simp add: tape_random_def tape_next_def)
  have grade: "gr_grade (grade_results e ! 0) = 0"
    unfolding run_grade_record(2) [OF run n(2)]
    by (simp add: grade_result_of_fields predicted_grade_of_def draw boundary_submissions_def)
  have "output_content (llm_calls e ! 0)
           = ''Grade: '' @ str_int 0 @ ''\<newline>\<newline>Justification: The submission demonstrates...''"
    unfolding run_grade_record(1) [OF run n(2)]
    by (simp add: grade_call_def boundary_submissions_def)
  with run draw grade show ?thesis
    by simp
qed

section \<open>Reproducibility\<close>

lemma grade_records_shift:
  "map snd (grade_records R ts' i subs s)
     = map (shift_grade_result (ts' - ts)) (map snd (grade_records R ts i subs s))"
  by (induction subs arbitrary: i s)
     (simp_all add: grade_result_of_def shift_grade_result_def grade_call_def Let_def)

lemma comparison_records_shift:
  "map snd (comparison_records R ts' accuracy subs ps c s)
     = map (shift_comparison (ts' - ts)) (map snd (comparison_records R ts accuracy subs ps c s))"
proof (induction ps arbitrary: c s)
  case Nil
  show ?case by simp
next
  case (Cons p ps)
  obtain i j where p: "p = (i, j)" by (cases p)
  have "snd (comparison_record R ts' accuracy a b c s)
          = shift_comparison (ts' - ts) (snd (comparison_record R ts accuracy a b c s))" for a b
    by (simp add: comparison_record_def shift_comparison_def comparison_call_def Let_def)
  then show ?case
    by (simp add: p Cons.IH)
qed

lemma anchor_comparison_shift:
  "anchor_comparison ts' i sub = shift_comparison (ts' - ts) (anchor_comparison ts i sub)"
  by (simp add: anchor_comparison_def shift_comparison_def anchor_call_def)

text \<open>
  Claim C3, as the routine implements it. The grade results and comparisons of a run are
  a function of the submission sequence, the seed, the accuracy and the clock reading of
  line 29; they do not depend on the paths or the description. Two runs that agree on the
  first three and read the clock at \<open>now\<close> and \<open>now'\<close> both fail or both complete, and then
  their grade results and comparisons agree in every field except the timestamps, which
  differ by \<open>now' - now\<close>. With the same clock reading the two sequences are identical.
\<close>

theorem runs_agree_up_to_clock:
  "map_sum id (\<lambda>e. (grade_results e, comparisons e))
       (create_egf_with_comparisons R now' subs edf_path' output_path' accuracy seed description')
     = map_sum id (\<lambda>e. (map (shift_grade_result (now' - now)) (grade_results e),
                          map (shift_comparison (now' - now)) (comparisons e)))
         (create_egf_with_comparisons R now subs edf_path output_path accuracy seed description)
   \<and> map_sum id (\<lambda>e. (grade_results e, comparisons e))
       (create_egf_with_comparisons R now subs edf_path' output_path' accuracy seed description')
     = map_sum id (\<lambda>e. (grade_results e, comparisons e))
         (create_egf_with_comparisons R now subs edf_path output_path accuracy seed description)"
proof (cases "3 \<le> length subs")
  case True
  have shifted: "map snd (run_grades R t' subs seed)
                   = map (shift_grade_result (t' - t)) (map snd (run_grades R t subs seed))"
    "map snd (run_comparisons R t' subs accuracy seed)
                   = map (shift_comparison (t' - t)) (map snd (run_comparisons R t subs accuracy seed))"
    for t t'
    unfolding run_grades_def run_comparisons_def
    by (rule grade_records_shift, rule comparison_records_shift)
  show ?thesis
    unfolding run_ok [OF True]
    by (simp add: shifted [of now' now] anchor_comparison_shift [of now' _ _ now])
next
  case False
  then have "length subs < 3" by simp
  then show ?thesis
    by (simp add: run_fails)
qed

theorem runs_agree_up_to_clock_witness:
  "map_sum id (\<lambda>e. (map gr_grade (grade_results e), map winner (comparisons e)))
       (create_egf_with_comparisons (tape_random (\<lambda>seed. [2, 0, 1, 7, 95])) 1 three_submissions
          ''in.edf'' ''out.egf'' 0.8 42 ''d'')
     = map_sum id (\<lambda>e. (map gr_grade (grade_results e), map winner (comparisons e)))
       (create_egf_with_comparisons (tape_random (\<lambda>seed. [2, 0, 1, 7, 95])) 0 three_submissions
          ''in.edf'' ''out.egf'' 0.8 42 ''d'')"
  using runs_agree_up_to_clock [of "tape_random (\<lambda>seed. [2, 0, 1, 7, 95])" 1 three_submissions
      "''in.edf''" "''out.egf''" "0.8" 42 "''d''" 0 "''in.edf''" "''out.egf''" "''d''"]
  by (auto simp: map_sum_def shift_grade_result_def shift_comparison_def comp_def
      split: sum.splits)

text \<open>
  The same submissions, seed and accuracy at two clock readings give different grade
  results and different comparisons.
\<close>

theorem clock_changes_results:
  "\<exists>e e'. create_egf_with_comparisons (tape_random (\<lambda>seed. [])) 0 three_submissions
             ''in.edf'' ''out.egf'' 0.8 42 ''d'' = Inr e
        \<and> create_egf_with_comparisons (tape_random (\<lambda>seed. [])) 1 three_submissions
             ''in.edf'' ''out.egf'' 0.8 42 ''d'' = Inr e'
        \<and> gr_graded_at (grade_results e ! 0) = 500
        \<and> gr_graded_at (grade_results e' ! 0) = 501
        \<and> grade_results e \<noteq> grade_results e'
        \<and> compared_at (comparisons e ! 3) = 200500
        \<and> compared_at (comparisons e' ! 3) = 200501
        \<and> comparisons e \<noteq> comparisons e'"
proof -
  have n: "3 \<le> length three_submissions" "0 < length three_submissions"
    "length (pair_indices (length three_submissions)) = 3"
    by (simp_all add: three_submissions_def length_pair_indices)
  from run_ok [OF n(1)] obtain e where
    run: "create_egf_with_comparisons (tape_random (\<lambda>seed. [])) 0 three_submissions
            ''in.edf'' ''out.egf'' 0.8 42 ''d'' = Inr e"
    by blast
  from run_ok [OF n(1)] obtain e' where
    run': "create_egf_with_comparisons (tape_random (\<lambda>seed. [])) 1 three_submissions
            ''in.edf'' ''out.egf'' 0.8 42 ''d'' = Inr e'"
    by blast
  have g: "gr_graded_at (grade_results e ! 0) = 500" "gr_graded_at (grade_results e' ! 0) = 501"
    unfolding run_grade_record(2) [OF run n(2)] run_grade_record(2) [OF run' n(2)]
    by (simp_all add: grade_result_of_fields)
  have c: "compared_at (comparisons e ! 3) = 200500" "compared_at (comparisons e' ! 3) = 200501"
    by (simp_all add: run_Inr_fields [OF run] run_Inr_fields [OF run'] nth_append n(3)
        anchor_comparison_def)
  from g have "grade_results e \<noteq> grade_results e'"
    by auto
  moreover from c have "comparisons e \<noteq> comparisons e'"
    by auto
  ultimately show ?thesis
    using run run' g c by blast
qed

section \<open>The seed and the accuracy target\<close>

lemma winner_of_always_right:
  assumes "random_in_unit R" and "1 \<le> accuracy"
  shows "fst (winner_of R accuracy cw s) = cw"
proof -
  from assms(1) have "fst (random_random R s) < 1"
    by (simp add: random_in_unit_def)
  with assms(2) have "fst (random_random R s) < accuracy"
    by simp
  then show ?thesis
    by (simp add: winner_of_def case_prod_beta)
qed

lemma winner_of_always_flipped:
  assumes "random_in_unit R" and "accuracy \<le> 0"
  shows "fst (winner_of R accuracy cw s) = (if cw = ''a'' then ''b'' else ''a'')"
proof -
  from assms(1) have "0 \<le> fst (random_random R s)"
    by (simp add: random_in_unit_def)
  with assms(2) have "\<not> fst (random_random R s) < accuracy"
    by simp
  then show ?thesis
    by (simp add: winner_of_def case_prod_beta)
qed

lemma correct_winner_of_decided:
  "g_b < g_a \<Longrightarrow> correct_winner_of R g_a g_b s = (''a'', s)"
  "g_a < g_b \<Longrightarrow> correct_winner_of R g_a g_b s = (''b'', s)"
  by (simp_all add: correct_winner_of_def)

lemma any_seed_raises:
  assumes "seed_any seed = Inl err"
  shows "create_egf_with_comparisons_any R seed_any now subs edf_path output_path accuracy seed
           description = Inl err"
  by (simp add: create_egf_with_comparisons_any_def assms Let_def)

lemma any_seed_int:
  "create_egf_with_comparisons_any R (\<lambda>k. Inr (random_seed R k)) now subs edf_path output_path
       accuracy seed description
     = create_egf_with_comparisons R now subs edf_path output_path accuracy seed description"
  by (simp add: create_egf_with_comparisons_any_def create_egf_with_comparisons_def Let_def)

lemma any_seed_ok:
  assumes "seed_any seed = Inr s0" and "3 \<le> length subs"
  shows "create_egf_with_comparisons_any R seed_any now subs edf_path output_path accuracy seed
           description
           = Inr \<lparr>edf_ref = edf_path, egf_description = description,
                  llm_calls = map fst (grade_records R now 0 subs s0)
                    @ map fst (comparison_records R now accuracy subs
                                 (pair_indices (length subs)) 0 (grade_final R subs s0))
                    @ map (\<lambda>i. anchor_call now i (subs ! i)) [0, 1, 2],
                  grade_results = map snd (grade_records R now 0 subs s0),
                  comparisons = map snd (comparison_records R now accuracy subs
                                  (pair_indices (length subs)) 0 (grade_final R subs s0))
                    @ map (\<lambda>i. anchor_comparison now i (subs ! i)) [0, 1, 2]\<rparr>"
  by (simp add: create_egf_with_comparisons_any_def assms(1) grade_loop_eq comparison_loop_eq
        anchor_loop_ok [OF assms(2)] reference_edf_def Let_def)

lemma any_seed_short:
  assumes "seed_any seed = Inr s0" and "length subs < 3"
  shows "create_egf_with_comparisons_any R seed_any now subs edf_path output_path accuracy seed
           description = Inl IndexError"
  by (simp add: create_egf_with_comparisons_any_def assms(1) grade_loop_eq comparison_loop_eq
        anchor_loop_fails [OF assms(2)] Let_def)

lemma unclamped_winner:
  assumes "random_in_unit R" and "k < length ps" and "ps ! k = (i, j)"
  shows "(1 \<le> accuracy \<longrightarrow>
            (sub_grade (subs ! j) < sub_grade (subs ! i) \<longrightarrow>
               winner (snd (comparison_records R ts accuracy subs ps c s ! k)) = ''a'')
            \<and> (sub_grade (subs ! i) < sub_grade (subs ! j) \<longrightarrow>
               winner (snd (comparison_records R ts accuracy subs ps c s ! k)) = ''b''))
         \<and> (accuracy \<le> 0 \<longrightarrow>
            (sub_grade (subs ! j) < sub_grade (subs ! i) \<longrightarrow>
               winner (snd (comparison_records R ts accuracy subs ps c s ! k)) = ''b'')
            \<and> (sub_grade (subs ! i) < sub_grade (subs ! j) \<longrightarrow>
               winner (snd (comparison_records R ts accuracy subs ps c s ! k)) = ''a''))"
proof -
  from comparison_records_nth [OF assms(2), of R ts accuracy subs c s]
  obtain s' where "comparison_records R ts accuracy subs ps c s ! k
      = comparison_record R ts accuracy (subs ! i) (subs ! j) (c + k) s'"
    by (auto simp: assms(3))
  then have w: "winner (snd (comparison_records R ts accuracy subs ps c s ! k))
      = fst (winner_of R accuracy
               (fst (correct_winner_of R (sub_grade (subs ! i)) (sub_grade (subs ! j)) s'))
               (snd (correct_winner_of R (sub_grade (subs ! i)) (sub_grade (subs ! j)) s')))"
    by (simp add: comparison_record_winner)
  show ?thesis
    unfolding w
    by (auto simp: correct_winner_of_decided winner_of_always_right [OF assms(1)]
        winner_of_always_flipped [OF assms(1)])
qed

text \<open>
  Claim C4, as the routine implements it. A seed that \<^verbatim>\<open>random.seed\<close> rejects ends the
  routine at line 30 with the library's error, a \<^verbatim>\<open>TypeError\<close> for a seed of an
  unsupported type: this is the result whatever the submissions and the accuracy, also for
  fewer than 3 submissions, so no pass has run, no grade result or comparison exists and
  nothing is saved. The accuracy target is not checked at all. With a seed that is accepted,
  a run on at least 3 submissions completes for every accuracy value, inside \<open>[0, 1]\<close> or
  not; its grades are drawn from the state the seeding returned, and the accuracy is used
  as given in the test \<open>r < accuracy\<close> with \<open>r\<close> in \<open>[0, 1)\<close>: with an accuracy of 1 or more
  every comparison of two different grades reports the better submission, with an accuracy
  of 0 or less every such comparison reports the worse one.
\<close>

theorem seed_checked_accuracy_unchecked:
  "(seed_any seed = Inl err \<longrightarrow>
      create_egf_with_comparisons_any R seed_any now subs edf_path output_path accuracy seed
        description = Inl err)
   \<and> (seed_any seed = Inr init \<and> 3 \<le> length subs \<longrightarrow>
        (\<exists>e. create_egf_with_comparisons_any R seed_any now subs edf_path output_path accuracy
                seed description = Inr e
          \<and> length (grade_results e) = length subs
          \<and> length (comparisons e) = length (pair_indices (length subs)) + 3
          \<and> (\<forall>k < length subs.
                gr_grade (grade_results e ! k)
                  = max 0 (min 10 (sub_grade (subs ! k)
                      + fst (random_randint R (- 1) 1 (grade_state R init k)))))
          \<and> (random_in_unit R \<longrightarrow>
               (\<forall>k < length (pair_indices (length subs)).
                  \<forall>i j. pair_indices (length subs) ! k = (i, j) \<longrightarrow>
                    (1 \<le> accuracy \<longrightarrow>
                       (sub_grade (subs ! j) < sub_grade (subs ! i)
                          \<longrightarrow> winner (comparisons e ! k) = ''a'')
                       \<and> (sub_grade (subs ! i) < sub_grade (subs ! j)
                          \<longrightarrow> winner (comparisons e ! k) = ''b''))
                    \<and> (accuracy \<le> 0 \<longrightarrow>
                       (sub_grade (subs ! j) < sub_grade (subs ! i)
                          \<longrightarrow> winner (comparisons e ! k) = ''b'')
                       \<and> (sub_grade (subs ! i) < sub_grade (subs ! j)
                          \<longrightarrow> winner (comparisons e ! k) = ''a''))))))
   \<and> create_egf_with_comparisons_any R (\<lambda>n. Inr (random_seed R n)) now subs edf_path
        output_path accuracy int_seed description
      = create_egf_with_comparisons R now subs edf_path output_path accuracy int_seed
          description"
proof (intro conjI impI)
  assume "seed_any seed = Inl err"
  then show "create_egf_with_comparisons_any R seed_any now subs edf_path output_path accuracy
               seed description = Inl err"
    by (rule any_seed_raises [where seed_any = seed_any and seed = seed])
next
  show "create_egf_with_comparisons_any R (\<lambda>n. Inr (random_seed R n)) now subs edf_path
          output_path accuracy int_seed description
        = create_egf_with_comparisons R now subs edf_path output_path accuracy int_seed
            description"
    by (rule any_seed_int)
next
  assume "seed_any seed = Inr init \<and> 3 \<le> length subs"
  then have seeded: "seed_any seed = Inr init" and n3: "3 \<le> length subs"
    by simp_all
  define G where "G = grade_records R now 0 subs init"
  define C where "C = comparison_records R now accuracy subs (pair_indices (length subs)) 0
                        (grade_final R subs init)"
  define e where
    "e = \<lparr>edf_ref = edf_path, egf_description = description,
          llm_calls = map fst G @ map fst C @ map (\<lambda>i. anchor_call now i (subs ! i)) [0, 1, 2],
          grade_results = map snd G,
          comparisons = map snd C @ map (\<lambda>i. anchor_comparison now i (subs ! i)) [0, 1, 2]\<rparr>"
  have run: "create_egf_with_comparisons_any R seed_any now subs edf_path output_path accuracy
               seed description = Inr e"
    unfolding e_def G_def C_def
    by (rule any_seed_ok [where seed_any = seed_any and seed = seed, OF seeded n3])
  have lenG: "length G = length subs" and lenC: "length C = length (pair_indices (length subs))"
    by (simp_all add: G_def C_def)
  have lens: "length (grade_results e) = length subs"
    "length (comparisons e) = length (pair_indices (length subs)) + 3"
    by (simp_all add: e_def lenG lenC)
  have grades: "gr_grade (grade_results e ! k)
                  = max 0 (min 10 (sub_grade (subs ! k)
                      + fst (random_randint R (- 1) 1 (grade_state R init k))))"
    if "k < length subs" for k
    using that grade_records_nth [OF that, of R now 0 init]
    by (simp add: e_def G_def [symmetric] lenG grade_result_of_fields predicted_grade_of_def)
  have winners:
    "(1 \<le> accuracy \<longrightarrow>
        (sub_grade (subs ! j) < sub_grade (subs ! i) \<longrightarrow> winner (comparisons e ! k) = ''a'')
        \<and> (sub_grade (subs ! i) < sub_grade (subs ! j) \<longrightarrow> winner (comparisons e ! k) = ''b''))
     \<and> (accuracy \<le> 0 \<longrightarrow>
        (sub_grade (subs ! j) < sub_grade (subs ! i) \<longrightarrow> winner (comparisons e ! k) = ''b'')
        \<and> (sub_grade (subs ! i) < sub_grade (subs ! j) \<longrightarrow> winner (comparisons e ! k) = ''a''))"
    if unit: "random_in_unit R" and k: "k < length (pair_indices (length subs))"
      and ij: "pair_indices (length subs) ! k = (i, j)"
    for k i j
  proof -
    from k have "comparisons e ! k = snd (C ! k)"
      by (simp add: e_def nth_append lenC)
    then show ?thesis
      using unclamped_winner [OF unit k ij, of accuracy subs now 0 "grade_final R subs init"]
      by (simp add: C_def)
  qed
  show "\<exists>e. create_egf_with_comparisons_any R seed_any now subs edf_path output_path accuracy
                seed description = Inr e
          \<and> length (grade_results e) = length subs
          \<and> length (comparisons e) = length (pair_indices (length subs)) + 3
          \<and> (\<forall>k < length subs.
                gr_grade (grade_results e ! k)
                  = max 0 (min 10 (sub_grade (subs ! k)
                      + fst (random_randint R (- 1) 1 (grade_state R init k)))))
          \<and> (random_in_unit R \<longrightarrow>
               (\<forall>k < length (pair_indices (length subs)).
                  \<forall>i j. pair_indices (length subs) ! k = (i, j) \<longrightarrow>
                    (1 \<le> accuracy \<longrightarrow>
                       (sub_grade (subs ! j) < sub_grade (subs ! i)
                          \<longrightarrow> winner (comparisons e ! k) = ''a'')
                       \<and> (sub_grade (subs ! i) < sub_grade (subs ! j)
                          \<longrightarrow> winner (comparisons e ! k) = ''b''))
                    \<and> (accuracy \<le> 0 \<longrightarrow>
                       (sub_grade (subs ! j) < sub_grade (subs ! i)
                          \<longrightarrow> winner (comparisons e ! k) = ''b'')
                       \<and> (sub_grade (subs ! i) < sub_grade (subs ! j)
                          \<longrightarrow> winner (comparisons e ! k) = ''a''))))"
    using run lens grades winners by blast
qed

theorem seed_checked_accuracy_unchecked_witness:
  "create_egf_with_comparisons_any (tape_random (\<lambda>seed. [])) (tape_seed (\<lambda>seed. [])) 0
       (take 2 three_submissions) ''in.edf'' ''out.egf'' 1.5 (Seed_list [1, 2]) ''d''
     = Inl TypeError
   \<and> (\<exists>e. create_egf_with_comparisons_any (tape_random (\<lambda>seed. [])) (tape_seed (\<lambda>seed. [])) 0
             three_submissions ''in.edf'' ''out.egf'' (- 0.5) (Seed_int 42) ''d'' = Inr e
          \<and> length (grade_results e) = 3
          \<and> gr_grade (grade_results e ! 0) = 2
          \<and> winner (comparisons e ! 0) = ''a'')"
proof -
  have rejected: "tape_seed (\<lambda>seed. []) (Seed_list [1, 2]) = Inl TypeError"
    and accepted: "tape_seed (\<lambda>seed. []) (Seed_int 42) = Inr []"
    by (simp_all add: tape_seed_def)
  have pairs: "pair_indices 3 = [(0, 1), (0, 2), (1, 2)]"
    by code_simp
  have n: "3 \<le> length three_submissions" "length three_submissions = 3"
    "length (pair_indices 3) = 3" "pair_indices 3 ! 0 = (0, 1)"
    by (simp_all add: three_submissions_def pairs)
  have g: "sub_grade (three_submissions ! 0) = 3"
    "sub_grade (three_submissions ! 0) < sub_grade (three_submissions ! 1)"
    by (simp_all add: three_submissions_def)
  have draw: "fst (random_randint (tape_random (\<lambda>seed. [])) (- 1) 1 []) = - 1"
    by (simp add: tape_random_def tape_next_def)
  note raised = seed_checked_accuracy_unchecked [where seed_any = "tape_seed (\<lambda>seed. [])"
      and seed = "Seed_list [1, 2]" and err = TypeError and R = "tape_random (\<lambda>seed. [])"
      and now = 0 and subs = "take 2 three_submissions" and edf_path = "''in.edf''"
      and output_path = "''out.egf''" and accuracy = "1.5" and description = "''d''"
      and init = "[]" and int_seed = 42, THEN conjunct1, rule_format, OF rejected]
  note completed = seed_checked_accuracy_unchecked [where seed_any = "tape_seed (\<lambda>seed. [])"
      and seed = "Seed_int 42" and err = TypeError and R = "tape_random (\<lambda>seed. [])"
      and now = 0 and subs = three_submissions and edf_path = "''in.edf''"
      and output_path = "''out.egf''" and accuracy = "- 0.5" and description = "''d''"
      and init = "[]" and int_seed = 42, THEN conjunct2, THEN conjunct1, rule_format,
      OF conjI [OF accepted n(1)], unfolded n(2)]
  from completed obtain e where
    run: "create_egf_with_comparisons_any (tape_random (\<lambda>seed. [])) (tape_seed (\<lambda>seed. [])) 0
            three_submissions ''in.edf'' ''out.egf'' (- 0.5) (Seed_int 42) ''d'' = Inr e"
    and len: "length (grade_results e) = 3"
    and grades: "\<forall>k < 3. gr_grade (grade_results e ! k)
                  = max 0 (min 10 (sub_grade (three_submissions ! k)
                      + fst (random_randint (tape_random (\<lambda>seed. [])) (- 1) 1
                               (grade_state (tape_random (\<lambda>seed. [])) [] k))))"
    and flipped: "random_in_unit (tape_random (\<lambda>seed. [])) \<longrightarrow>
               (\<forall>k < length (pair_indices 3). \<forall>i j. pair_indices 3 ! k = (i, j) \<longrightarrow>
                    (1 \<le> (- 0.5 :: real) \<longrightarrow>
                       (sub_grade (three_submissions ! j) < sub_grade (three_submissions ! i)
                          \<longrightarrow> winner (comparisons e ! k) = ''a'')
                       \<and> (sub_grade (three_submissions ! i) < sub_grade (three_submissions ! j)
                          \<longrightarrow> winner (comparisons e ! k) = ''b''))
                    \<and> ((- 0.5 :: real) \<le> 0 \<longrightarrow>
                       (sub_grade (three_submissions ! j) < sub_grade (three_submissions ! i)
                          \<longrightarrow> winner (comparisons e ! k) = ''b'')
                       \<and> (sub_grade (three_submissions ! i) < sub_grade (three_submissions ! j)
                          \<longrightarrow> winner (comparisons e ! k) = ''a'')))"
    by blast
  from grades [rule_format, of 0] have "gr_grade (grade_results e ! 0) = 2"
    by (simp add: g(1) draw)
  moreover from flipped [rule_format, OF tape_random_in_unit _ n(4)] g(2)
  have "winner (comparisons e ! 0) = ''a''"
    by (simp add: n(3))
  ultimately show ?thesis
    using raised run len by blast
qed

text \<open>
  An accuracy target of 1.5 is accepted: the run completes with all its grade results,
  comparisons and call records.
\<close>

theorem accuracy_out_of_range_accepted:
  "\<exists>e. create_egf_with_comparisons (tape_random (\<lambda>seed. [])) 0 three_submissions
          ''in.edf'' ''out.egf'' 1.5 42 ''d'' = Inr e
       \<and> length (grade_results e) = 3 \<and> length (comparisons e) = 6
       \<and> length (llm_calls e) = 9"
proof -
  have n: "3 \<le> length three_submissions" "length three_submissions = 3"
    "length (pair_indices 3) = 3"
    by (simp_all add: three_submissions_def length_pair_indices)
  from run_ok [OF n(1)] obtain e where
    run: "create_egf_with_comparisons (tape_random (\<lambda>seed. [])) 0 three_submissions
            ''in.edf'' ''out.egf'' 1.5 42 ''d'' = Inr e"
    by blast
  then show ?thesis
    by (simp add: run_Inr_fields [OF run] n)
qed

section \<open>The passes on a concrete input\<close>

text \<open>
  The three passes evaluated on three submissions with grades 3, 5, 5. In the grading pass
  the tape 2, 0, 1 gives the noises \<open>+1\<close>, \<open>-1\<close>, \<open>0\<close>. In the comparison pass the pairs
  \<open>(0, 1)\<close> and \<open>(0, 2)\<close> are won by \<open>b\<close> and kept with \<open>r = 0.07\<close> and \<open>r = 0.03\<close>; the
  tie of the pair \<open>(1, 2)\<close> is broken to \<open>b\<close> and kept with \<open>r = 0.2\<close>.
\<close>

lemma concrete_grading_pass:
  "map_sum id (\<lambda>(e, s). (map gr_grade (grade_results e), map call_id (llm_calls e), s))
       (for_each (grade_body (tape_random (\<lambda>seed. [2, 0, 1, 7])) 0) (enumerate 0 three_submissions)
          (reference_edf ''in.edf'' ''d'', [2, 0, 1, 7]))
   = Inr ([4, 4, 5], [''grade_call_000'', ''grade_call_001'', ''grade_call_002''], [7])"
  by code_simp

lemma concrete_comparison_pass:
  "map_sum id (\<lambda>(e, s, c). (map winner (comparisons e), map comparison_id (comparisons e), s, c))
       (comparison_loop (tape_random (\<lambda>seed. [])) 0 0.8 three_submissions
          (reference_edf ''in.edf'' ''d'', [7, 95, 3, 50, 1, 20, 30], 0))
   = Inr ([''b'', ''b'', ''b''], [''comp_000'', ''comp_001'', ''comp_002''], [], 3)"
  by code_simp

lemma concrete_anchor_pass:
  "map_sum id (\<lambda>e. (map submission_a (comparisons e), map submission_b (comparisons e),
                     map winner (comparisons e), map confidence (comparisons e),
                     map compared_at (comparisons e)))
       (anchor_loop 0 three_submissions (reference_edf ''in.edf'' ''d''))
   = Inr ([''s1'', ''s2'', ''s3''],
          [''external_anchor_exemplar'', ''external_anchor_exemplar'', ''external_anchor_exemplar''],
          [''a'', ''a'', ''a''], [0.85, 0.85, 0.85], [200500, 201500, 202500])"
  by code_simp

lemma concrete_anchor_pass_fails:
  "anchor_loop 0 (take 2 three_submissions) (reference_edf ''in.edf'' ''d'') = Inl IndexError"
  by code_simp

end
